theory Spec2Isabelle
  imports Main "HOL-Library.Sublist"
begin

section \<open>Caller attribution: the data model\<close>

text \<open>
  The resolvers of \<^verbatim>\<open>caller_resolver.py\<close> walk the interpreter's frame chain
  (\<^verbatim>\<open>inspect.currentframe()\<close>, then \<^verbatim>\<open>.f_back\<close> until \<^verbatim>\<open>None\<close>). The chain is
  modelled as a list of frames, innermost first; the empty list is the frame \<^verbatim>\<open>None\<close>.
  A frame offers the two reads the resolvers perform. Each read either yields a string or
  raises an exception deriving from \<^verbatim>\<open>Exception\<close> (the class that the clause
  \<^verbatim>\<open>except Exception\<close> covers), which is the value \<open>Inl\<close> of the read.
\<close>

datatype exn = Exception string

record frame =
  f_globals_name :: "exn + string"
  co_filename :: "exn + string"

text \<open>
  The result of a resolver: a string, or the sentinel \<^verbatim>\<open>MISSING\<close>.
\<close>

datatype result = Str string | MISSING

text \<open>
  The three shapes of the exclusion argument: \<^verbatim>\<open>None\<close>, a single string, or a
  collection of strings (a set for the primary resolvers, a sequence for the legacy one).
\<close>

datatype 'c excluded = NoneGiven | OneStr string | Coll 'c

text \<open>
  What the module reads from its surroundings: its own \<^verbatim>\<open>__name__\<close> and
  \<^verbatim>\<open>__file__\<close>, \<^verbatim>\<open>sys.argv\<close>, and the library function \<^verbatim>\<open>Path(p).name\<close>,
  which is taken as a parameter.
\<close>

record env =
  dunder_name :: string
  dunder_file :: string
  argv :: "string list"
  path_name :: "string \<Rightarrow> string"

section \<open>String operations\<close>

text \<open>
  \<^verbatim>\<open>s.startswith(p)\<close> is \<^const>\<open>prefix\<close>, \<^verbatim>\<open>p in s\<close> is \<^const>\<open>sublist\<close>
  (a contiguous run). \<^verbatim>\<open>s.lower()\<close> is modelled on ASCII letters.
\<close>

definition lower_char :: "char \<Rightarrow> char" where
  "lower_char c =
     (let n = (of_char c :: nat)
      in if 65 \<le> n \<and> n \<le> 90 then char_of (n + 32) else c)"

definition lower :: "string \<Rightarrow> string" where
  "lower s = map lower_char s"

section \<open>The shared phases\<close>

text \<open>
  The skip phase, \<^verbatim>\<open>for _ in range(stack_start)\<close>: an iteration that finds the frame
  \<^verbatim>\<open>None\<close> leaves the function through the fallback (\<open>None\<close> here); otherwise it
  steps to \<^verbatim>\<open>f_back\<close>.
\<close>

fun skip_frames :: "nat \<Rightarrow> frame list \<Rightarrow> frame list option" where
  "skip_frames 0 frame = Some frame"
| "skip_frames (Suc n) [] = None"
| "skip_frames (Suc n) (frame # f_back) = skip_frames n f_back"

text \<open>
  The loop guard \<^verbatim>\<open>max_stack_depth is None or inspected < max_stack_depth\<close>.
\<close>

fun within_depth :: "int option \<Rightarrow> int \<Rightarrow> bool" where
  "within_depth None inspected = True"
| "within_depth (Some max_stack_depth) inspected = (inspected < max_stack_depth)"

section \<open>Module resolution\<close>

definition prefix_set_of :: "string set excluded \<Rightarrow> string set" where
  "prefix_set_of excluded_prefixes =
     (case excluded_prefixes of
        NoneGiven \<Rightarrow> {}
      | OneStr s \<Rightarrow> {s}
      | Coll S \<Rightarrow> S)"

text \<open>
  The traversal loop of \<^verbatim>\<open>resolve_caller_module\<close>. \<open>Inr (Some m)\<close> is the
  \<^verbatim>\<open>return module_name\<close> inside the loop, \<open>Inr None\<close> is leaving the loop, and
  \<open>Inl e\<close> is an exception raised by the frame read, which nothing catches.
\<close>

fun module_loop ::
  "string set \<Rightarrow> int option \<Rightarrow> int \<Rightarrow> frame list \<Rightarrow> exn + string option" where
  "module_loop prefix_set max_stack_depth inspected [] = Inr None"
| "module_loop prefix_set max_stack_depth inspected (frame # f_back) =
     (if within_depth max_stack_depth inspected then
        (case f_globals_name frame of
           Inl e \<Rightarrow> Inl e
         | Inr module_name \<Rightarrow>
             if module_name \<noteq> [] \<and>
                (prefix_set = {} \<or> \<not> (\<exists>p \<in> prefix_set. prefix p module_name))
             then Inr (Some module_name)
             else module_loop prefix_set max_stack_depth (inspected + 1) f_back)
      else Inr None)"

definition resolve_caller_module ::
  "env \<Rightarrow> int \<Rightarrow> int option \<Rightarrow> string set excluded \<Rightarrow> bool \<Rightarrow> frame list
     \<Rightarrow> exn + result" where
  "resolve_caller_module env stack_start max_stack_depth excluded_prefixes
       fallback_to_current stack =
     (let prefix_set = prefix_set_of excluded_prefixes;
          fallback = (if fallback_to_current then Str (dunder_name env) else MISSING)
      in case skip_frames (nat stack_start) stack of
           None \<Rightarrow> Inr fallback
         | Some frame \<Rightarrow>
             (case module_loop prefix_set max_stack_depth 0 frame of
                Inl e \<Rightarrow> Inl e
              | Inr (Some module_name) \<Rightarrow> Inr (Str module_name)
              | Inr None \<Rightarrow> Inr fallback))"

section \<open>File resolution\<close>

text \<open>
  The default exclusion patterns, used when \<^verbatim>\<open>excluded_patterns\<close> is \<^verbatim>\<open>None\<close>.
\<close>

definition default_patterns :: "env \<Rightarrow> string set" where
  "default_patterns env =
     {dunder_file env,
      ''logging/__init__.py'',
      ''<frozen importlib._bootstrap>'',
      ''<frozen importlib._bootstrap_external>'',
      ''importlib/__init__.py'',
      ''site-packages'',
      ''<stdin>'',
      ''<string>'',
      ''<'',
      ''venv/'',
      ''.venv/'',
      ''virtualenv/''}"

definition pattern_set_of :: "env \<Rightarrow> string set excluded \<Rightarrow> string set" where
  "pattern_set_of env excluded_patterns =
     (case excluded_patterns of
        NoneGiven \<Rightarrow> default_patterns env
      | OneStr s \<Rightarrow> {s}
      | Coll S \<Rightarrow> S)"

text \<open>
  The exclusion test of one unseen path: the loop over \<^verbatim>\<open>pattern_set\<close> sets
  \<^verbatim>\<open>should_exclude\<close>; if it is still false, the case-insensitive check against the
  three environment-directory names may set it.
\<close>

definition venv_patterns :: "string list" where
  "venv_patterns = [''venv'', ''.venv'', ''virtualenv'']"

definition should_exclude :: "string set \<Rightarrow> string \<Rightarrow> bool" where
  "should_exclude pattern_set caller_path =
     (let by_pattern = (\<exists>pattern \<in> pattern_set. sublist pattern caller_path);
          caller_path_lower = lower caller_path
      in if \<not> by_pattern \<and>
            (\<exists>venv_pattern \<in> set venv_patterns. sublist venv_pattern caller_path_lower)
         then True
         else by_pattern)"

text \<open>
  \<^verbatim>\<open>Path(p).name if return_basename else p\<close>.
\<close>

definition render :: "env \<Rightarrow> bool \<Rightarrow> string \<Rightarrow> string" where
  "render env return_basename p = (if return_basename then path_name env p else p)"

text \<open>
  The fallback cascade. The source has the same three statements twice: inside the skip
  loop and after the traversal.
\<close>

definition fallbacks :: "env \<Rightarrow> bool \<Rightarrow> bool \<Rightarrow> bool \<Rightarrow> result" where
  "fallbacks env return_basename fallback_to_argv fallback_to_current =
     (if fallback_to_argv \<and> argv env \<noteq> [] then
        Str (render env return_basename (hd (argv env)))
      else if fallback_to_current then
        Str (render env return_basename (dunder_file env))
      else MISSING)"

text \<open>
  The traversal loop of \<^verbatim>\<open>resolve_caller_filename\<close>, with the set
  \<^verbatim>\<open>seen_files\<close> threaded through. A path already seen is passed over, and the
  counter \<^verbatim>\<open>inspected\<close> is incremented on both branches.
\<close>

fun file_loop ::
  "env \<Rightarrow> bool \<Rightarrow> string set \<Rightarrow> int option \<Rightarrow> int \<Rightarrow> string set \<Rightarrow> frame list
     \<Rightarrow> exn + string option" where
  "file_loop env return_basename pattern_set max_stack_depth inspected seen_files [] =
     Inr None"
| "file_loop env return_basename pattern_set max_stack_depth inspected seen_files
       (frame # f_back) =
     (if within_depth max_stack_depth inspected then
        (case co_filename frame of
           Inl e \<Rightarrow> Inl e
         | Inr caller_path \<Rightarrow>
             if caller_path \<notin> seen_files then
               (if \<not> should_exclude pattern_set caller_path
                then Inr (Some (render env return_basename caller_path))
                else file_loop env return_basename pattern_set max_stack_depth
                       (inspected + 1) (insert caller_path seen_files) f_back)
             else file_loop env return_basename pattern_set max_stack_depth
                    (inspected + 1) seen_files f_back)
      else Inr None)"

text \<open>
  The body of the \<^verbatim>\<open>try\<close> block: \<open>Inr (Some r)\<close> is a \<^verbatim>\<open>return\<close> inside it,
  \<open>Inr None\<close> is falling out of it, \<open>Inl e\<close> is an exception raised inside it.
\<close>

definition file_try_body ::
  "env \<Rightarrow> int \<Rightarrow> int option \<Rightarrow> string set \<Rightarrow> bool \<Rightarrow> bool \<Rightarrow> bool \<Rightarrow> frame list
     \<Rightarrow> exn + result option" where
  "file_try_body env stack_start max_stack_depth pattern_set return_basename
       fallback_to_argv fallback_to_current stack =
     (case skip_frames (nat stack_start) stack of
        None \<Rightarrow> Inr (Some (fallbacks env return_basename fallback_to_argv fallback_to_current))
      | Some frame \<Rightarrow>
          (case file_loop env return_basename pattern_set max_stack_depth 0 {} frame of
             Inl e \<Rightarrow> Inl e
           | Inr (Some p) \<Rightarrow> Inr (Some (Str p))
           | Inr None \<Rightarrow> Inr None))"

text \<open>
  \<^verbatim>\<open>except Exception: pass\<close> turns an exception of the body into falling through to
  the fallbacks after the \<^verbatim>\<open>try\<close> statement. The function's own result type keeps
  the exception alternative, so that ``never raises'' is a theorem and not a typing fact.
\<close>

definition resolve_caller_filename ::
  "env \<Rightarrow> int \<Rightarrow> int option \<Rightarrow> string set excluded \<Rightarrow> bool \<Rightarrow> bool \<Rightarrow> bool \<Rightarrow> frame list
     \<Rightarrow> exn + result" where
  "resolve_caller_filename env stack_start max_stack_depth excluded_patterns
       return_basename fallback_to_argv fallback_to_current stack =
     (let pattern_set = pattern_set_of env excluded_patterns
      in case file_try_body env stack_start max_stack_depth pattern_set return_basename
                fallback_to_argv fallback_to_current stack of
           Inr (Some r) \<Rightarrow> Inr r
         | Inr None \<Rightarrow>
             Inr (fallbacks env return_basename fallback_to_argv fallback_to_current)
         | Inl e \<Rightarrow>
             Inr (fallbacks env return_basename fallback_to_argv fallback_to_current))"

section \<open>The legacy module resolver\<close>

text \<open>
  \<^verbatim>\<open>aaa\<close> of \<^verbatim>\<open>caller_resolver_bak.py\<close> normalises the exclusion argument to a
  tuple and tests \<^verbatim>\<open>module_name.startswith(prefix_tuple)\<close>, which holds when the name
  starts with some element of the tuple.
\<close>

definition prefix_tuple_of :: "string list excluded \<Rightarrow> string list" where
  "prefix_tuple_of excluded_prefixes =
     (case excluded_prefixes of
        NoneGiven \<Rightarrow> []
      | OneStr s \<Rightarrow> [s]
      | Coll xs \<Rightarrow> xs)"

fun aaa_loop ::
  "string list \<Rightarrow> int option \<Rightarrow> int \<Rightarrow> frame list \<Rightarrow> exn + string option" where
  "aaa_loop prefix_tuple max_stack_depth inspected [] = Inr None"
| "aaa_loop prefix_tuple max_stack_depth inspected (frame # f_back) =
     (if within_depth max_stack_depth inspected then
        (case f_globals_name frame of
           Inl e \<Rightarrow> Inl e
         | Inr module_name \<Rightarrow>
             if module_name \<noteq> [] \<and>
                (prefix_tuple = [] \<or> \<not> list_ex (\<lambda>p. prefix p module_name) prefix_tuple)
             then Inr (Some module_name)
             else aaa_loop prefix_tuple max_stack_depth (inspected + 1) f_back)
      else Inr None)"

definition aaa ::
  "env \<Rightarrow> int \<Rightarrow> int option \<Rightarrow> string list excluded \<Rightarrow> bool \<Rightarrow> frame list
     \<Rightarrow> exn + result" where
  "aaa env stack_start max_stack_depth excluded_prefixes fallback_to_current stack =
     (let prefix_tuple = prefix_tuple_of excluded_prefixes;
          fallback = (if fallback_to_current then Str (dunder_name env) else MISSING)
      in case skip_frames (nat stack_start) stack of
           None \<Rightarrow> Inr fallback
         | Some frame \<Rightarrow>
             (case aaa_loop prefix_tuple max_stack_depth 0 frame of
                Inl e \<Rightarrow> Inl e
              | Inr (Some module_name) \<Rightarrow> Inr (Str module_name)
              | Inr None \<Rightarrow> Inr fallback))"

text \<open>
  The same choice of exclusion argument for the two resolvers: the set of the sequence's
  elements.
\<close>

definition as_set :: "string list excluded \<Rightarrow> string set excluded" where
  "as_set excluded_prefixes =
     (case excluded_prefixes of
        NoneGiven \<Rightarrow> NoneGiven
      | OneStr s \<Rightarrow> OneStr s
      | Coll xs \<Rightarrow> Coll (set xs))"

section \<open>The record enrichment filter\<close>

text \<open>
  \<^verbatim>\<open>CallerInfoFilter\<close> of \<^verbatim>\<open>logkit/filters.py\<close>. A log record is its attribute
  dictionary; an attribute holds either a resolver result or a value of the logging
  framework's own (\<open>'a\<close>). The fields of the filter are the attributes that
  \<^verbatim>\<open>__init__\<close> stores on \<^verbatim>\<open>self\<close>.
\<close>

record CallerInfoFilter =
  self_attribute_name :: string
  self_exclude_patterns :: "string set"
  self_stack_offset :: int
  self_fallback_to_argv :: bool

type_synonym 'a log_record = "string \<rightharpoonup> (result + 'a)"

text \<open>
  \<^verbatim>\<open>CallerInfoFilter.filter\<close>: the call of \<^verbatim>\<open>resolve_caller_filename\<close> leaves
  \<^verbatim>\<open>max_stack_depth\<close>, \<^verbatim>\<open>return_basename\<close> and \<^verbatim>\<open>fallback_to_current\<close> at their
  defaults; then \<^verbatim>\<open>setattr\<close> and \<^verbatim>\<open>return True\<close>. The argument \<open>stack\<close> is the
  frame chain as the resolver finds it when called from here. The result is the returned
  boolean and the record after the call.
\<close>

definition filter_CallerInfoFilter ::
  "env \<Rightarrow> CallerInfoFilter \<Rightarrow> 'a log_record \<Rightarrow> frame list
     \<Rightarrow> exn + (bool \<times> 'a log_record)" where
  "filter_CallerInfoFilter env self record stack =
     (case resolve_caller_filename env (8 + self_stack_offset self) None
             (Coll (self_exclude_patterns self)) True (self_fallback_to_argv self) True
             stack of
        Inl e \<Rightarrow> Inl e
      | Inr caller \<Rightarrow> Inr (True, record(self_attribute_name self \<mapsto> Inl caller)))"

section \<open>Concrete inputs\<close>

text \<open>
  An environment and frames for evaluating the definitions. \<open>last_component\<close> stands
  for \<^verbatim>\<open>Path(p).name\<close> on paths that do not end in a slash.
\<close>

definition last_component :: "string \<Rightarrow> string" where
  "last_component p = rev (takeWhile (\<lambda>c. c \<noteq> CHR ''/'') (rev p))"

definition demo_env :: env where
  "demo_env =
     \<lparr>dunder_name = ''utils.caller_resolver'',
      dunder_file = ''/app/utils/caller_resolver.py'',
      argv = [''/app/run.py''],
      path_name = last_component\<rparr>"

definition mk_frame :: "string \<Rightarrow> string \<Rightarrow> frame" where
  "mk_frame name path = \<lparr>f_globals_name = Inr name, co_filename = Inr path\<rparr>"

definition faulty_frame :: frame where
  "faulty_frame =
     \<lparr>f_globals_name = Inl (Exception ''unreadable''),
      co_filename = Inl (Exception ''unreadable'')\<rparr>"

section \<open>Facts about the shared phases\<close>

lemma skip_frames_drop:
  "skip_frames n stack = (if n \<le> length stack then Some (drop n stack) else None)"
  by (induction n stack rule: skip_frames.induct) auto

lemma within_depth_mono:
  "within_depth md (i + int k) \<Longrightarrow> within_depth md i"
  by (cases md) auto

section \<open>Facts about the module traversal\<close>

lemma module_loop_found:
  assumes "\<forall>g \<in> set pre. \<exists>n. f_globals_name g = Inr n \<and> (n = [] \<or> (\<exists>p \<in> PS. prefix p n))"
    and "f_globals_name f = Inr m" and "m \<noteq> []" and "\<not> (\<exists>p \<in> PS. prefix p m)"
    and "within_depth md (i + int (length pre))"
  shows "module_loop PS md i (pre @ f # rest) = Inr (Some m)"
  using assms
proof (induction pre arbitrary: i)
  case Nil
  then show ?case by auto
next
  case (Cons g pre)
  from Cons.prems(1) obtain n
    where n: "f_globals_name g = Inr n" "n = [] \<or> (\<exists>p \<in> PS. prefix p n)"
    by auto
  have wd: "within_depth md i"
    using Cons.prems(5) within_depth_mono [of md i "length (g # pre)"] by simp
  have wd': "within_depth md ((i + 1) + int (length pre))"
  proof -
    have "(i + 1) + int (length pre) = i + int (length (g # pre))" by simp
    with Cons.prems(5) show ?thesis by (simp only:)
  qed
  have "module_loop PS md (i + 1) (pre @ f # rest) = Inr (Some m)"
    using Cons.IH [of "i + 1"] Cons.prems wd' by auto
  with n wd show ?case by auto
qed

lemma module_loop_rejected:
  assumes "\<forall>g \<in> set fs. \<exists>n. f_globals_name g = Inr n \<and> (n = [] \<or> (\<exists>p \<in> PS. prefix p n))"
  shows "module_loop PS md i fs = Inr None"
  using assms by (induction fs arbitrary: i) auto

lemma module_loop_take:
  "module_loop PS (Some d) i fs = module_loop PS None i (take (nat (d - i)) fs)"
proof (induction fs arbitrary: i)
  case Nil
  then show ?case by simp
next
  case (Cons g fs)
  show ?case
  proof (cases "i < d")
    case True
    then have "nat (d - i) = Suc (nat (d - (i + 1)))" by simp
    with True Cons.IH [of "i + 1"] show ?thesis
      by (auto split: sum.splits)
  next
    case False
    then show ?thesis by simp
  qed
qed

lemma aaa_loop_eq: "aaa_loop ps md i fs = module_loop (set ps) md i fs"
  by (induction fs arbitrary: i) (auto simp: list_ex_iff split: sum.splits)

section \<open>Facts about the file traversal\<close>

lemma should_exclude_iff:
  "should_exclude PS p \<longleftrightarrow>
     (\<exists>pat \<in> PS. sublist pat p) \<or>
     (sublist ''venv'' (lower p) \<or> sublist ''.venv'' (lower p) \<or> sublist ''virtualenv'' (lower p))"
  by (auto simp: should_exclude_def venv_patterns_def Let_def)

lemma file_loop_found:
  assumes "\<forall>g \<in> set pre. \<exists>q. co_filename g = Inr q \<and> should_exclude PS q"
    and "co_filename f = Inr p" and "\<not> should_exclude PS p"
    and "\<forall>q \<in> seen. should_exclude PS q"
    and "within_depth md (i + int (length pre))"
  shows "file_loop env rb PS md i seen (pre @ f # rest) = Inr (Some (render env rb p))"
  using assms
proof (induction pre arbitrary: i seen)
  case Nil
  then have "p \<notin> seen" by auto
  with Nil show ?case by auto
next
  case (Cons g pre)
  from Cons.prems(1) obtain q
    where q: "co_filename g = Inr q" "should_exclude PS q"
    by auto
  have wd: "within_depth md i"
    using Cons.prems(5) within_depth_mono [of md i "length (g # pre)"] by simp
  have wd': "within_depth md ((i + 1) + int (length pre))"
  proof -
    have "(i + 1) + int (length pre) = i + int (length (g # pre))" by simp
    with Cons.prems(5) show ?thesis by (simp only:)
  qed
  have pre: "\<forall>g \<in> set pre. \<exists>q. co_filename g = Inr q \<and> should_exclude PS q"
    using Cons.prems(1) by simp
  have a: "file_loop env rb PS md (i + 1) seen (pre @ f # rest) = Inr (Some (render env rb p))"
    using Cons.IH [OF pre Cons.prems(2) Cons.prems(3) Cons.prems(4) wd'] .
  have seen': "\<forall>r \<in> insert q seen. should_exclude PS r"
    using Cons.prems(4) q(2) by simp
  have b: "file_loop env rb PS md (i + 1) (insert q seen) (pre @ f # rest)
      = Inr (Some (render env rb p))"
    using Cons.IH [OF pre Cons.prems(2) Cons.prems(3) seen' wd'] .
  from q wd a b show ?case by simp
qed

lemma file_loop_rejected:
  assumes "\<forall>g \<in> set fs. \<exists>q. co_filename g = Inr q \<and> should_exclude PS q"
  shows "file_loop env rb PS md i seen fs = Inr None"
  using assms by (induction fs arbitrary: i seen) auto

lemma file_loop_take:
  "file_loop env rb PS (Some d) i seen fs
     = file_loop env rb PS None i seen (take (nat (d - i)) fs)"
proof (induction fs arbitrary: i seen)
  case Nil
  then show ?case by simp
next
  case (Cons g fs)
  show ?case
  proof (cases "i < d")
    case True
    then have "nat (d - i) = Suc (nat (d - (i + 1)))" by simp
    with True Cons.IH [of "i + 1"] show ?thesis
      by (auto split: sum.splits)
  next
    case False
    then show ?thesis by simp
  qed
qed

lemma file_loop_fault:
  assumes "\<forall>g \<in> set pre. \<exists>q. co_filename g = Inr q \<and> should_exclude PS q"
    and "co_filename f = Inl e"
    and "within_depth md (i + int (length pre))"
  shows "file_loop env rb PS md i seen (pre @ f # rest) = Inl e"
  using assms
proof (induction pre arbitrary: i seen)
  case Nil
  then show ?case by auto
next
  case (Cons g pre)
  from Cons.prems(1) obtain q
    where q: "co_filename g = Inr q" "should_exclude PS q"
    by auto
  have wd: "within_depth md i"
    using Cons.prems(3) within_depth_mono [of md i "length (g # pre)"] by simp
  have wd': "within_depth md ((i + 1) + int (length pre))"
  proof -
    have "(i + 1) + int (length pre) = i + int (length (g # pre))" by simp
    with Cons.prems(3) show ?thesis by (simp only:)
  qed
  have pre: "\<forall>g \<in> set pre. \<exists>q. co_filename g = Inr q \<and> should_exclude PS q"
    using Cons.prems(1) by simp
  have "\<And>s. file_loop env rb PS md (i + 1) s (pre @ f # rest) = Inl e"
    using Cons.IH [OF pre Cons.prems(2) wd'] .
  with q wd show ?case by simp
qed

lemma module_loop_fault:
  assumes "\<forall>g \<in> set pre. \<exists>n. f_globals_name g = Inr n \<and> (n = [] \<or> (\<exists>p \<in> PS. prefix p n))"
    and "f_globals_name f = Inl e"
    and "within_depth md (i + int (length pre))"
  shows "module_loop PS md i (pre @ f # rest) = Inl e"
  using assms
proof (induction pre arbitrary: i)
  case Nil
  then show ?case by auto
next
  case (Cons g pre)
  from Cons.prems(1) obtain n
    where n: "f_globals_name g = Inr n" "n = [] \<or> (\<exists>p \<in> PS. prefix p n)"
    by auto
  have wd: "within_depth md i"
    using Cons.prems(3) within_depth_mono [of md i "length (g # pre)"] by simp
  have wd': "within_depth md ((i + 1) + int (length pre))"
  proof -
    have "(i + 1) + int (length pre) = i + int (length (g # pre))" by simp
    with Cons.prems(3) show ?thesis by (simp only:)
  qed
  have "module_loop PS md (i + 1) (pre @ f # rest) = Inl e"
    using Cons.IH [of "i + 1"] Cons.prems wd' by auto
  with n wd show ?case by auto
qed

lemma module_loop_fault_origin:
  "module_loop PS md i fs = Inl e \<Longrightarrow> \<exists>g \<in> set fs. f_globals_name g = Inl e"
proof (induction fs arbitrary: i)
  case Nil
  then show ?case by simp
next
  case (Cons g fs)
  show ?case
  proof (cases "f_globals_name g")
    case (Inl e')
    with Cons.prems show ?thesis by (auto split: if_splits)
  next
    case (Inr n)
    with Cons.prems have "module_loop PS md (i + 1) fs = Inl e"
      by (auto split: if_splits)
    from Cons.IH [OF this] show ?thesis by auto
  qed
qed

lemma fallbacks_cascade:
  "fallbacks env rb fta ftc =
     (if fta \<and> argv env \<noteq> [] then Str (render env rb (hd (argv env)))
      else if ftc then Str (render env rb (dunder_file env))
      else MISSING)"
  by (simp add: fallbacks_def)

lemma resolve_caller_filename_cases:
  "resolve_caller_filename env ss md ex rb fta ftc stack =
     (case skip_frames (nat ss) stack of
        None \<Rightarrow> Inr (fallbacks env rb fta ftc)
      | Some fs \<Rightarrow>
          (case file_loop env rb (pattern_set_of env ex) md 0 {} fs of
             Inr (Some p) \<Rightarrow> Inr (Str p)
           | Inr None \<Rightarrow> Inr (fallbacks env rb fta ftc)
           | Inl e \<Rightarrow> Inr (fallbacks env rb fta ftc)))"
  by (simp add: resolve_caller_filename_def file_try_body_def
      split: option.splits sum.splits)

section \<open>Claims about module resolution\<close>

text \<open>
  Claim C2. After the skip phase, \<^const>\<open>resolve_caller_module\<close> returns the module
  identifier of the first inspected frame whose identifier is non-empty and does not start
  with any configured prefix: the frames before it (\<open>pre\<close>) were read and each had an
  empty identifier or one that some prefix starts, and the frame lies within the depth
  limit. The comparison is the plain string prefix: \<open>''foo''\<close> excludes both
  \<open>''foobar''\<close> and \<open>''foo.bar''\<close>, and the chain \<open>pkg.internal\<close>, \<open>pkg.sub\<close>,
  \<open>app.main\<close> with the prefix set \<open>{''pkg.''}\<close> resolves to \<open>''app.main''\<close>.
\<close>

theorem module_resolution_first_external:
  assumes "drop (nat stack_start) stack = pre @ f # rest"
    and "\<forall>g \<in> set pre. \<exists>n. f_globals_name g = Inr n \<and>
           (n = [] \<or> (\<exists>p \<in> prefix_set_of excluded_prefixes. prefix p n))"
    and "f_globals_name f = Inr m"
    and "m \<noteq> []"
    and "\<not> (\<exists>p \<in> prefix_set_of excluded_prefixes. prefix p m)"
    and "within_depth max_stack_depth (int (length pre))"
  shows "resolve_caller_module env stack_start max_stack_depth excluded_prefixes
           fallback_to_current stack = Inr (Str m)
       \<and> resolve_caller_module env 0 None (OneStr ''foo'') fallback_to_current
           [mk_frame ''foobar'' a, mk_frame ''foo.bar'' b, mk_frame ''app'' c]
         = Inr (Str ''app'')
       \<and> resolve_caller_module env 0 None (Coll {''pkg.''}) fallback_to_current
           [mk_frame ''pkg.internal'' a, mk_frame ''pkg.sub'' b, mk_frame ''app.main'' c]
         = Inr (Str ''app.main'')"
proof -
  have len: "nat stack_start \<le> length stack"
    using assms(1) by (cases "nat stack_start \<le> length stack") auto
  have "module_loop (prefix_set_of excluded_prefixes) max_stack_depth 0 (pre @ f # rest)
          = Inr (Some m)"
    using module_loop_found [OF assms(2) assms(3) assms(4) assms(5), of max_stack_depth 0 rest]
      assms(6) by simp
  then have general: "resolve_caller_module env stack_start max_stack_depth excluded_prefixes
      fallback_to_current stack = Inr (Str m)"
    using len assms(1) by (simp add: resolve_caller_module_def skip_frames_drop)
  have foo: "resolve_caller_module env 0 None (OneStr ''foo'') fallback_to_current
           [mk_frame ''foobar'' a, mk_frame ''foo.bar'' b, mk_frame ''app'' c]
         = Inr (Str ''app'')"
    by (simp add: resolve_caller_module_def prefix_set_of_def mk_frame_def)
  have pkg: "resolve_caller_module env 0 None (Coll {''pkg.''}) fallback_to_current
           [mk_frame ''pkg.internal'' a, mk_frame ''pkg.sub'' b, mk_frame ''app.main'' c]
         = Inr (Str ''app.main'')"
    by (simp add: resolve_caller_module_def prefix_set_of_def mk_frame_def)
  from general foo pkg show ?thesis by simp
qed

theorem module_resolution_first_external_witness:
  "resolve_caller_module demo_env 1 (Some 3) (Coll {''pkg.'', ''utils.''}) True
     [mk_frame ''utils.caller_resolver'' ''/app/utils/caller_resolver.py'',
      mk_frame ''pkg.internal'' ''/app/pkg/internal.py'',
      mk_frame [] ''<string>'',
      mk_frame ''app.main'' ''/app/main.py'',
      mk_frame ''pkg.sub'' ''/app/pkg/sub.py'']
   = Inr (Str ''app.main'')"
proof -
  let ?stack = "[mk_frame ''utils.caller_resolver'' ''/app/utils/caller_resolver.py'',
      mk_frame ''pkg.internal'' ''/app/pkg/internal.py'',
      mk_frame [] ''<string>'',
      mk_frame ''app.main'' ''/app/main.py'',
      mk_frame ''pkg.sub'' ''/app/pkg/sub.py'']"
  let ?pre = "[mk_frame ''pkg.internal'' ''/app/pkg/internal.py'', mk_frame [] ''<string>'']"
  let ?ex = "Coll {''pkg.'', ''utils.''} :: string set excluded"
  have h1: "drop (nat 1) ?stack
      = ?pre @ mk_frame ''app.main'' ''/app/main.py'' # [mk_frame ''pkg.sub'' ''/app/pkg/sub.py'']"
    by simp
  have h2: "\<forall>g \<in> set ?pre. \<exists>n. f_globals_name g = Inr n \<and>
           (n = [] \<or> (\<exists>p \<in> prefix_set_of ?ex. prefix p n))"
    by (simp add: mk_frame_def prefix_set_of_def)
  have h3: "f_globals_name (mk_frame ''app.main'' ''/app/main.py'') = Inr ''app.main''"
    by (simp add: mk_frame_def)
  have h4: "''app.main'' \<noteq> []" by simp
  have h5: "\<not> (\<exists>p \<in> prefix_set_of ?ex. prefix p ''app.main'')"
    by (simp add: prefix_set_of_def)
  have h6: "within_depth (Some 3) (int (length ?pre))" by simp
  from module_resolution_first_external [OF h1 h2 h3 h4 h5 h6, of demo_env True]
  show ?thesis by simp
qed

section \<open>Claims about file resolution\<close>

text \<open>
  Claim C1. In \<^const>\<open>resolve_caller_filename\<close>, a frame reached after the skip phase
  whose path is not in the seen set is rejected exactly when some pattern of the
  configured set occurs in its path, or the lower-cased path contains \<open>venv\<close>,
  \<open>.venv\<close> or \<open>virtualenv\<close>, whatever the pattern set is; a rejected frame's path
  joins the seen set and the walk goes on. The first frame that fails both checks (the
  frames before it were read and rejected, and it lies within the depth limit) is
  accepted and returned.
\<close>

theorem file_resolution_exclusion:
  "(co_filename f = Inr p \<and> p \<notin> seen \<and> within_depth max_stack_depth inspected \<longrightarrow>
      file_loop env return_basename pattern_set max_stack_depth inspected seen (f # fs) =
        (if (\<exists>pat \<in> pattern_set. sublist pat p) \<or>
            (\<exists>v \<in> {''venv'', ''.venv'', ''virtualenv''}. sublist v (lower p))
         then file_loop env return_basename pattern_set max_stack_depth (inspected + 1)
                (insert p seen) fs
         else Inr (Some (render env return_basename p))))
   \<and> (drop (nat stack_start) stack = pre @ f # rest \<and>
      (\<forall>g \<in> set pre. \<exists>q. co_filename g = Inr q \<and>
         ((\<exists>pat \<in> pattern_set_of env excluded_patterns. sublist pat q) \<or>
          (\<exists>v \<in> {''venv'', ''.venv'', ''virtualenv''}. sublist v (lower q)))) \<and>
      co_filename f = Inr p \<and>
      \<not> (\<exists>pat \<in> pattern_set_of env excluded_patterns. sublist pat p) \<and>
      \<not> (\<exists>v \<in> {''venv'', ''.venv'', ''virtualenv''}. sublist v (lower p)) \<and>
      within_depth max_stack_depth (int (length pre)) \<longrightarrow>
      resolve_caller_filename env stack_start max_stack_depth excluded_patterns
          return_basename fallback_to_argv fallback_to_current stack
        = Inr (Str (render env return_basename p)))"
proof (intro conjI impI)
  assume "co_filename f = Inr p \<and> p \<notin> seen \<and> within_depth max_stack_depth inspected"
  then show "file_loop env return_basename pattern_set max_stack_depth inspected seen (f # fs) =
        (if (\<exists>pat \<in> pattern_set. sublist pat p) \<or>
            (\<exists>v \<in> {''venv'', ''.venv'', ''virtualenv''}. sublist v (lower p))
         then file_loop env return_basename pattern_set max_stack_depth (inspected + 1)
                (insert p seen) fs
         else Inr (Some (render env return_basename p)))"
    by (simp add: should_exclude_iff)
next
  let ?PS = "pattern_set_of env excluded_patterns"
  assume a: "drop (nat stack_start) stack = pre @ f # rest \<and>
      (\<forall>g \<in> set pre. \<exists>q. co_filename g = Inr q \<and>
         ((\<exists>pat \<in> ?PS. sublist pat q) \<or>
          (\<exists>v \<in> {''venv'', ''.venv'', ''virtualenv''}. sublist v (lower q)))) \<and>
      co_filename f = Inr p \<and>
      \<not> (\<exists>pat \<in> ?PS. sublist pat p) \<and>
      \<not> (\<exists>v \<in> {''venv'', ''.venv'', ''virtualenv''}. sublist v (lower p)) \<and>
      within_depth max_stack_depth (int (length pre))"
  then have d: "drop (nat stack_start) stack = pre @ f # rest" by blast
  have len: "nat stack_start \<le> length stack"
    using d by (cases "nat stack_start \<le> length stack") auto
  have pre: "\<forall>g \<in> set pre. \<exists>q. co_filename g = Inr q \<and> should_exclude ?PS q"
    using a by (simp add: should_exclude_iff)
  have f: "co_filename f = Inr p" using a by blast
  have ok: "\<not> should_exclude ?PS p"
    using a by (simp add: should_exclude_iff)
  have wd: "within_depth max_stack_depth (0 + int (length pre))" using a by simp
  have "file_loop env return_basename ?PS max_stack_depth 0 {} (pre @ f # rest)
      = Inr (Some (render env return_basename p))"
    by (rule file_loop_found [OF pre f ok _ wd]) simp
  with len d show "resolve_caller_filename env stack_start max_stack_depth excluded_patterns
          return_basename fallback_to_argv fallback_to_current stack
        = Inr (Str (render env return_basename p))"
    by (simp add: resolve_caller_filename_cases skip_frames_drop)
qed

theorem file_resolution_exclusion_witness:
  "file_loop demo_env True {''site-packages''} None 0 {}
       [mk_frame ''tool'' ''/srv/MyVENV/lib/tool.py'', mk_frame ''app.main'' ''/app/main.py'']
     = file_loop demo_env True {''site-packages''} None 1 {''/srv/MyVENV/lib/tool.py''}
         [mk_frame ''app.main'' ''/app/main.py'']
   \<and> resolve_caller_filename demo_env 1 None NoneGiven True True True
       [mk_frame ''utils.caller_resolver'' ''/app/utils/caller_resolver.py'',
        mk_frame ''logging'' ''/usr/lib/python3/logging/__init__.py'',
        mk_frame ''tool'' ''/srv/MyVENV/lib/tool.py'',
        mk_frame ''app.main'' ''/app/main.py'']
     = Inr (Str ''main.py'')"
proof -
  let ?tool = "mk_frame ''tool'' ''/srv/MyVENV/lib/tool.py''"
  let ?main = "mk_frame ''app.main'' ''/app/main.py''"
  let ?logging = "mk_frame ''logging'' ''/usr/lib/python3/logging/__init__.py''"
  let ?self = "mk_frame ''utils.caller_resolver'' ''/app/utils/caller_resolver.py''"
  let ?markers = "{''venv'', ''.venv'', ''virtualenv''}"
  have venv: "sublist ''venv'' (lower ''/srv/MyVENV/lib/tool.py'')"
    by code_simp
  have h1: "co_filename ?tool = Inr ''/srv/MyVENV/lib/tool.py''
      \<and> ''/srv/MyVENV/lib/tool.py'' \<notin> {} \<and> within_depth None 0"
    by (simp add: mk_frame_def)
  have first: "file_loop demo_env True {''site-packages''} None 0 {} [?tool, ?main]
     = file_loop demo_env True {''site-packages''} None 1 {''/srv/MyVENV/lib/tool.py''} [?main]"
    using file_resolution_exclusion [of ?tool "''/srv/MyVENV/lib/tool.py''" "{}" None 0
        demo_env True "{''site-packages''}" "[?main]"] h1 venv
    by simp
  have d: "drop (nat 1) [?self, ?logging, ?tool, ?main] = [?logging, ?tool] @ ?main # []"
    by simp
  have lg: "sublist ''logging/__init__.py'' ''/usr/lib/python3/logging/__init__.py''"
    by code_simp
  have pre: "\<forall>g \<in> set [?logging, ?tool]. \<exists>q. co_filename g = Inr q \<and>
         ((\<exists>pat \<in> pattern_set_of demo_env NoneGiven. sublist pat q) \<or>
          (\<exists>v \<in> ?markers. sublist v (lower q)))"
    using venv lg by (simp add: mk_frame_def pattern_set_of_def default_patterns_def)
  have f: "co_filename ?main = Inr ''/app/main.py''" by (simp add: mk_frame_def)
  have n1: "\<not> (\<exists>pat \<in> pattern_set_of demo_env NoneGiven. sublist pat ''/app/main.py'')"
    by code_simp
  have n2: "\<not> (\<exists>v \<in> ?markers. sublist v (lower ''/app/main.py''))"
    by code_simp
  have wd: "within_depth None (int (length [?logging, ?tool]))" by simp
  have second: "resolve_caller_filename demo_env 1 None NoneGiven True True True
       [?self, ?logging, ?tool, ?main] = Inr (Str (render demo_env True ''/app/main.py''))"
    using file_resolution_exclusion [of ?main "''/app/main.py''" "{}" None 0
        demo_env True "{}" "[]" 1 "[?self, ?logging, ?tool, ?main]" "[?logging, ?tool]" "[]"
        NoneGiven True True] d pre f n1 n2 wd
    by blast
  have r: "render demo_env True ''/app/main.py'' = ''main.py''"
    by (simp add: render_def demo_env_def last_component_def)
  from first second r show ?thesis by simp
qed

section \<open>Claims about both resolvers\<close>

text \<open>
  Claim C3, refuted as stated. With an empty pattern set the file resolver still rejects
  a frame whose lower-cased path contains an environment-directory name: here the first
  post-skip frame has a defined path and is passed over for the next one.
\<close>

theorem empty_exclusion_set_counterexample:
  "resolve_caller_filename demo_env 0 None (Coll {}) False True True
     [mk_frame ''tool'' ''/srv/.venv/lib/tool.py'', mk_frame ''app.main'' ''/app/main.py'']
   = Inr (Str ''/app/main.py'')
   \<and> resolve_caller_filename demo_env 0 None (Coll {}) False True True
     [mk_frame ''tool'' ''/srv/.venv/lib/tool.py'', mk_frame ''app.main'' ''/app/main.py'']
   \<noteq> Inr (Str ''/srv/.venv/lib/tool.py'')"
  by code_simp

text \<open>
  Claim C3, amended. With an empty exclusion set (the argument \<^verbatim>\<open>None\<close> or an empty
  set for the module resolver, an empty set for the file resolver) no frame is excluded
  by pattern matching. The module resolver returns the identifier of the first post-skip
  frame whose identifier is non-empty, and the file resolver returns the path of the
  first post-skip frame whose lower-cased path contains none of \<open>venv\<close>, \<open>.venv\<close>,
  \<open>virtualenv\<close>; in both cases the frames before it were read and the frame lies
  within the depth limit.
\<close>

theorem empty_exclusion_set_first_valid:
  "(prefix_set_of excluded_prefixes = {} \<and>
      drop (nat stack_start) stack = pre @ f # rest \<and>
      (\<forall>g \<in> set pre. f_globals_name g = Inr []) \<and>
      f_globals_name f = Inr m \<and> m \<noteq> [] \<and>
      within_depth max_stack_depth (int (length pre)) \<longrightarrow>
      resolve_caller_module env stack_start max_stack_depth excluded_prefixes
          fallback_to_current stack = Inr (Str m))
   \<and> (drop (nat stack_start) stack = pre @ f # rest \<and>
      (\<forall>g \<in> set pre. \<exists>q. co_filename g = Inr q \<and>
         (\<exists>v \<in> {''venv'', ''.venv'', ''virtualenv''}. sublist v (lower q))) \<and>
      co_filename f = Inr p \<and>
      \<not> (\<exists>v \<in> {''venv'', ''.venv'', ''virtualenv''}. sublist v (lower p)) \<and>
      within_depth max_stack_depth (int (length pre)) \<longrightarrow>
      resolve_caller_filename env stack_start max_stack_depth (Coll {})
          return_basename fallback_to_argv fallback_to_current stack
        = Inr (Str (render env return_basename p)))
   \<and> prefix_set_of NoneGiven = {} \<and> prefix_set_of (Coll {}) = {}
   \<and> pattern_set_of env (Coll {}) = {}"
proof (intro conjI impI)
  let ?PS = "prefix_set_of excluded_prefixes"
  assume a: "?PS = {} \<and>
      drop (nat stack_start) stack = pre @ f # rest \<and>
      (\<forall>g \<in> set pre. f_globals_name g = Inr []) \<and>
      f_globals_name f = Inr m \<and> m \<noteq> [] \<and>
      within_depth max_stack_depth (int (length pre))"
  then have d: "drop (nat stack_start) stack = pre @ f # rest" by blast
  have len: "nat stack_start \<le> length stack"
    using d by (cases "nat stack_start \<le> length stack") auto
  have pre: "\<forall>g \<in> set pre. \<exists>n. f_globals_name g = Inr n \<and> (n = [] \<or> (\<exists>p \<in> ?PS. prefix p n))"
    using a by simp
  have f: "f_globals_name f = Inr m" and m: "m \<noteq> []" using a by blast+
  have no: "\<not> (\<exists>p \<in> ?PS. prefix p m)" using a by simp
  have wd: "within_depth max_stack_depth (0 + int (length pre))" using a by simp
  have "module_loop ?PS max_stack_depth 0 (pre @ f # rest) = Inr (Some m)"
    by (rule module_loop_found [OF pre f m no wd])
  with len d show "resolve_caller_module env stack_start max_stack_depth excluded_prefixes
          fallback_to_current stack = Inr (Str m)"
    by (simp add: resolve_caller_module_def skip_frames_drop)
next
  assume a: "drop (nat stack_start) stack = pre @ f # rest \<and>
      (\<forall>g \<in> set pre. \<exists>q. co_filename g = Inr q \<and>
         (\<exists>v \<in> {''venv'', ''.venv'', ''virtualenv''}. sublist v (lower q))) \<and>
      co_filename f = Inr p \<and>
      \<not> (\<exists>v \<in> {''venv'', ''.venv'', ''virtualenv''}. sublist v (lower p)) \<and>
      within_depth max_stack_depth (int (length pre))"
  then have d: "drop (nat stack_start) stack = pre @ f # rest" by blast
  have len: "nat stack_start \<le> length stack"
    using d by (cases "nat stack_start \<le> length stack") auto
  have pre: "\<forall>g \<in> set pre. \<exists>q. co_filename g = Inr q \<and> should_exclude {} q"
    using a by (simp add: should_exclude_iff)
  have f: "co_filename f = Inr p" using a by blast
  have ok: "\<not> should_exclude {} p"
    using a by (simp add: should_exclude_iff)
  have wd: "within_depth max_stack_depth (0 + int (length pre))" using a by simp
  have "file_loop env return_basename {} max_stack_depth 0 {} (pre @ f # rest)
      = Inr (Some (render env return_basename p))"
    by (rule file_loop_found [OF pre f ok _ wd]) simp
  with len d show "resolve_caller_filename env stack_start max_stack_depth (Coll {})
          return_basename fallback_to_argv fallback_to_current stack
        = Inr (Str (render env return_basename p))"
    by (simp add: resolve_caller_filename_cases skip_frames_drop pattern_set_of_def)
qed (simp_all add: prefix_set_of_def pattern_set_of_def)

theorem empty_exclusion_set_first_valid_witness:
  "resolve_caller_module demo_env 1 (Some 2) NoneGiven True
     [mk_frame ''utils.caller_resolver'' ''/app/utils/caller_resolver.py'',
      mk_frame [] ''<string>'',
      mk_frame ''app.main'' ''/app/main.py'']
   = Inr (Str ''app.main'')
   \<and> resolve_caller_filename demo_env 1 (Some 2) (Coll {}) True True True
     [mk_frame ''utils.caller_resolver'' ''/app/utils/caller_resolver.py'',
      mk_frame ''tool'' ''/srv/.venv/lib/tool.py'',
      mk_frame ''app.main'' ''/app/main.py'']
   = Inr (Str ''main.py'')"
proof -
  let ?self = "mk_frame ''utils.caller_resolver'' ''/app/utils/caller_resolver.py''"
  let ?anon = "mk_frame [] ''<string>''"
  let ?tool = "mk_frame ''tool'' ''/srv/.venv/lib/tool.py''"
  let ?main = "mk_frame ''app.main'' ''/app/main.py''"
  let ?markers = "{''venv'', ''.venv'', ''virtualenv''}"
  have m1: "prefix_set_of NoneGiven = {} \<and>
      drop (nat 1) [?self, ?anon, ?main] = [?anon] @ ?main # [] \<and>
      (\<forall>g \<in> set [?anon]. f_globals_name g = Inr []) \<and>
      f_globals_name ?main = Inr ''app.main'' \<and> ''app.main'' \<noteq> [] \<and>
      within_depth (Some 2) (int (length [?anon]))"
    by (simp add: prefix_set_of_def mk_frame_def)
  have mres: "resolve_caller_module demo_env 1 (Some 2) NoneGiven True
      [?self, ?anon, ?main] = Inr (Str ''app.main'')"
    using empty_exclusion_set_first_valid [where excluded_prefixes = NoneGiven
        and stack_start = 1 and stack = "[?self, ?anon, ?main]" and pre = "[?anon]"
        and f = ?main and rest = "[]" and m = "''app.main''" and max_stack_depth = "Some 2"
        and env = demo_env and fallback_to_current = True] m1
    by blast
  have venv: "\<exists>v \<in> ?markers. sublist v (lower ''/srv/.venv/lib/tool.py'')"
    by code_simp
  have n2: "\<not> (\<exists>v \<in> ?markers. sublist v (lower ''/app/main.py''))"
    by code_simp
  have f1: "drop (nat 1) [?self, ?tool, ?main] = [?tool] @ ?main # [] \<and>
      (\<forall>g \<in> set [?tool]. \<exists>q. co_filename g = Inr q \<and>
         (\<exists>v \<in> ?markers. sublist v (lower q))) \<and>
      co_filename ?main = Inr ''/app/main.py'' \<and>
      \<not> (\<exists>v \<in> ?markers. sublist v (lower ''/app/main.py'')) \<and>
      within_depth (Some 2) (int (length [?tool]))"
    using venv n2 by (simp add: mk_frame_def)
  have fres: "resolve_caller_filename demo_env 1 (Some 2) (Coll {}) True True True
      [?self, ?tool, ?main] = Inr (Str (render demo_env True ''/app/main.py''))"
    using empty_exclusion_set_first_valid [where stack_start = 1
        and stack = "[?self, ?tool, ?main]" and pre = "[?tool]" and f = ?main and rest = "[]"
        and p = "''/app/main.py''" and max_stack_depth = "Some 2" and env = demo_env
        and return_basename = True and fallback_to_argv = True
        and fallback_to_current = True] f1
    by blast
  have r: "render demo_env True ''/app/main.py'' = ''main.py''"
    by (simp add: render_def demo_env_def last_component_def)
  from mres fres r show ?thesis by simp
qed

section \<open>Claims about fallbacks and faults\<close>

text \<open>
  Claim C4. Whenever \<^const>\<open>resolve_caller_filename\<close> accepts no frame, it returns
  the fallback cascade and raises nothing: the rendered \<^verbatim>\<open>sys.argv[0]\<close> if
  \<^verbatim>\<open>fallback_to_argv\<close> is set and \<^verbatim>\<open>sys.argv\<close> is non-empty, else the rendered
  \<^verbatim>\<open>__file__\<close> if \<^verbatim>\<open>fallback_to_current\<close> is set, else \<^verbatim>\<open>MISSING\<close>. This covers a
  skip count beyond the stack's depth, and a walk in which every inspected frame (all
  post-skip frames, or the first \<open>d\<close> of them under the depth limit \<open>d\<close>) is rejected.
\<close>

theorem file_resolution_fallback_cascade:
  "(length stack < nat stack_start \<longrightarrow>
      resolve_caller_filename env stack_start max_stack_depth excluded_patterns
          return_basename fallback_to_argv fallback_to_current stack
        = Inr (if fallback_to_argv \<and> argv env \<noteq> []
               then Str (render env return_basename (hd (argv env)))
               else if fallback_to_current
               then Str (render env return_basename (dunder_file env))
               else MISSING))
   \<and> ((\<forall>g \<in> set (drop (nat stack_start) stack).
         \<exists>q. co_filename g = Inr q \<and>
           should_exclude (pattern_set_of env excluded_patterns) q) \<longrightarrow>
      resolve_caller_filename env stack_start None excluded_patterns
          return_basename fallback_to_argv fallback_to_current stack
        = Inr (if fallback_to_argv \<and> argv env \<noteq> []
               then Str (render env return_basename (hd (argv env)))
               else if fallback_to_current
               then Str (render env return_basename (dunder_file env))
               else MISSING))
   \<and> ((\<forall>g \<in> set (take (nat d) (drop (nat stack_start) stack)).
         \<exists>q. co_filename g = Inr q \<and>
           should_exclude (pattern_set_of env excluded_patterns) q) \<longrightarrow>
      resolve_caller_filename env stack_start (Some d) excluded_patterns
          return_basename fallback_to_argv fallback_to_current stack
        = Inr (if fallback_to_argv \<and> argv env \<noteq> []
               then Str (render env return_basename (hd (argv env)))
               else if fallback_to_current
               then Str (render env return_basename (dunder_file env))
               else MISSING))"
proof (intro conjI impI)
  assume "length stack < nat stack_start"
  then show "resolve_caller_filename env stack_start max_stack_depth excluded_patterns
          return_basename fallback_to_argv fallback_to_current stack
        = Inr (if fallback_to_argv \<and> argv env \<noteq> []
               then Str (render env return_basename (hd (argv env)))
               else if fallback_to_current
               then Str (render env return_basename (dunder_file env))
               else MISSING)"
    by (simp add: resolve_caller_filename_cases skip_frames_drop fallbacks_cascade)
next
  let ?PS = "pattern_set_of env excluded_patterns"
  assume a: "\<forall>g \<in> set (drop (nat stack_start) stack).
         \<exists>q. co_filename g = Inr q \<and> should_exclude ?PS q"
  have "file_loop env return_basename ?PS None 0 {} (drop (nat stack_start) stack) = Inr None"
    by (rule file_loop_rejected [OF a])
  then show "resolve_caller_filename env stack_start None excluded_patterns
          return_basename fallback_to_argv fallback_to_current stack
        = Inr (if fallback_to_argv \<and> argv env \<noteq> []
               then Str (render env return_basename (hd (argv env)))
               else if fallback_to_current
               then Str (render env return_basename (dunder_file env))
               else MISSING)"
    by (simp add: resolve_caller_filename_cases skip_frames_drop fallbacks_cascade)
next
  let ?PS = "pattern_set_of env excluded_patterns"
  assume a: "\<forall>g \<in> set (take (nat d) (drop (nat stack_start) stack)).
         \<exists>q. co_filename g = Inr q \<and> should_exclude ?PS q"
  have "file_loop env return_basename ?PS None 0 {}
          (take (nat d) (drop (nat stack_start) stack)) = Inr None"
    by (rule file_loop_rejected [OF a])
  then have "file_loop env return_basename ?PS (Some d) 0 {} (drop (nat stack_start) stack)
      = Inr None"
    by (simp add: file_loop_take)
  then show "resolve_caller_filename env stack_start (Some d) excluded_patterns
          return_basename fallback_to_argv fallback_to_current stack
        = Inr (if fallback_to_argv \<and> argv env \<noteq> []
               then Str (render env return_basename (hd (argv env)))
               else if fallback_to_current
               then Str (render env return_basename (dunder_file env))
               else MISSING)"
    by (simp add: resolve_caller_filename_cases skip_frames_drop fallbacks_cascade)
qed

theorem file_resolution_fallback_cascade_witness:
  "resolve_caller_filename demo_env 5 None NoneGiven True True True
     [mk_frame ''utils.caller_resolver'' ''/app/utils/caller_resolver.py'',
      mk_frame ''app.main'' ''/app/main.py'']
   = Inr (Str ''run.py'')
   \<and> resolve_caller_filename (demo_env\<lparr>argv := []\<rparr>) 0 None NoneGiven True True True
     [mk_frame ''utils.caller_resolver'' ''/app/utils/caller_resolver.py'',
      mk_frame ''lib'' ''/usr/lib/python3/site-packages/lib.py'']
   = Inr (Str ''caller_resolver.py'')
   \<and> resolve_caller_filename demo_env 0 (Some 1) NoneGiven True False False
     [mk_frame ''utils.caller_resolver'' ''/app/utils/caller_resolver.py'',
      mk_frame ''app.main'' ''/app/main.py'']
   = Inr MISSING"
proof -
  let ?self = "mk_frame ''utils.caller_resolver'' ''/app/utils/caller_resolver.py''"
  let ?main = "mk_frame ''app.main'' ''/app/main.py''"
  let ?lib = "mk_frame ''lib'' ''/usr/lib/python3/site-packages/lib.py''"
  let ?env = "demo_env\<lparr>argv := []\<rparr>"
  have h1: "length [?self, ?main] < nat 5" by simp
  have a: "resolve_caller_filename demo_env 5 None NoneGiven True True True [?self, ?main]
      = Inr (Str ''run.py'')"
    using file_resolution_fallback_cascade [where stack = "[?self, ?main]"
        and stack_start = 5 and env = demo_env and max_stack_depth = None
        and excluded_patterns = NoneGiven and return_basename = True
        and fallback_to_argv = True and fallback_to_current = True] h1
    by (simp add: demo_env_def render_def last_component_def)
  have s1: "should_exclude (pattern_set_of ?env NoneGiven) ''/app/utils/caller_resolver.py''"
    by code_simp
  have s2: "should_exclude (pattern_set_of ?env NoneGiven)
      ''/usr/lib/python3/site-packages/lib.py''"
    by code_simp
  have h2: "\<forall>g \<in> set (drop (nat 0) [?self, ?lib]).
      \<exists>q. co_filename g = Inr q \<and> should_exclude (pattern_set_of ?env NoneGiven) q"
    using s1 s2 by (simp add: mk_frame_def)
  have b: "resolve_caller_filename ?env 0 None NoneGiven True True True [?self, ?lib]
      = Inr (Str ''caller_resolver.py'')"
    using file_resolution_fallback_cascade [where stack = "[?self, ?lib]"
        and stack_start = 0 and env = ?env
        and excluded_patterns = NoneGiven and return_basename = True
        and fallback_to_argv = True and fallback_to_current = True] h2
    by (simp add: demo_env_def render_def last_component_def)
  have s3: "should_exclude (pattern_set_of demo_env NoneGiven) ''/app/utils/caller_resolver.py''"
    by code_simp
  have h3: "\<forall>g \<in> set (take (nat 1) (drop (nat 0) [?self, ?main])).
      \<exists>q. co_filename g = Inr q \<and> should_exclude (pattern_set_of demo_env NoneGiven) q"
    using s3 by (simp add: mk_frame_def)
  have c: "resolve_caller_filename demo_env 0 (Some 1) NoneGiven True False False
      [?self, ?main] = Inr MISSING"
    using file_resolution_fallback_cascade [where stack = "[?self, ?main]"
        and stack_start = 0 and env = demo_env and d = 1
        and excluded_patterns = NoneGiven and return_basename = True
        and fallback_to_argv = False and fallback_to_current = False] h3
    by simp
  from a b c show ?thesis by simp
qed

text \<open>
  Claim C5. \<^const>\<open>resolve_caller_filename\<close> never raises: its result is always a
  string or \<^verbatim>\<open>MISSING\<close>. When the walk reaches a frame whose path read raises, the
  exception is caught and the result is the fallback cascade. \<^const>\<open>resolve_caller_module\<close>
  has no such handler: when its walk reaches a frame whose identifier read raises, the
  same exception leaves the function.
\<close>

theorem fault_handling_asymmetry:
  "(\<exists>r. resolve_caller_filename env stack_start max_stack_depth excluded_patterns
          return_basename fallback_to_argv fallback_to_current stack = Inr r)
   \<and> (drop (nat stack_start) stack = pre @ f # rest \<and>
      (\<forall>g \<in> set pre. \<exists>q. co_filename g = Inr q \<and>
         should_exclude (pattern_set_of env excluded_patterns) q) \<and>
      co_filename f = Inl e \<and>
      within_depth max_stack_depth (int (length pre)) \<longrightarrow>
      resolve_caller_filename env stack_start max_stack_depth excluded_patterns
          return_basename fallback_to_argv fallback_to_current stack
        = Inr (if fallback_to_argv \<and> argv env \<noteq> []
               then Str (render env return_basename (hd (argv env)))
               else if fallback_to_current
               then Str (render env return_basename (dunder_file env))
               else MISSING))
   \<and> (drop (nat stack_start) stack = pre @ f # rest \<and>
      (\<forall>g \<in> set pre. \<exists>n. f_globals_name g = Inr n \<and>
         (n = [] \<or> (\<exists>p \<in> prefix_set_of excluded_prefixes. prefix p n))) \<and>
      f_globals_name f = Inl e \<and>
      within_depth max_stack_depth (int (length pre)) \<longrightarrow>
      resolve_caller_module env stack_start max_stack_depth excluded_prefixes
          fallback_to_current stack = Inl e)"
proof (intro conjI impI)
  show "\<exists>r. resolve_caller_filename env stack_start max_stack_depth excluded_patterns
          return_basename fallback_to_argv fallback_to_current stack = Inr r"
    by (simp add: resolve_caller_filename_cases split: option.splits sum.splits)
next
  let ?PS = "pattern_set_of env excluded_patterns"
  assume a: "drop (nat stack_start) stack = pre @ f # rest \<and>
      (\<forall>g \<in> set pre. \<exists>q. co_filename g = Inr q \<and> should_exclude ?PS q) \<and>
      co_filename f = Inl e \<and>
      within_depth max_stack_depth (int (length pre))"
  then have d: "drop (nat stack_start) stack = pre @ f # rest" by blast
  have len: "nat stack_start \<le> length stack"
    using d by (cases "nat stack_start \<le> length stack") auto
  have pre: "\<forall>g \<in> set pre. \<exists>q. co_filename g = Inr q \<and> should_exclude ?PS q"
    using a by blast
  have f: "co_filename f = Inl e" using a by blast
  have wd: "within_depth max_stack_depth (0 + int (length pre))" using a by simp
  have "file_loop env return_basename ?PS max_stack_depth 0 {} (pre @ f # rest) = Inl e"
    by (rule file_loop_fault [OF pre f wd])
  with len d show "resolve_caller_filename env stack_start max_stack_depth excluded_patterns
          return_basename fallback_to_argv fallback_to_current stack
        = Inr (if fallback_to_argv \<and> argv env \<noteq> []
               then Str (render env return_basename (hd (argv env)))
               else if fallback_to_current
               then Str (render env return_basename (dunder_file env))
               else MISSING)"
    by (simp add: resolve_caller_filename_cases skip_frames_drop fallbacks_cascade)
next
  let ?PS = "prefix_set_of excluded_prefixes"
  assume a: "drop (nat stack_start) stack = pre @ f # rest \<and>
      (\<forall>g \<in> set pre. \<exists>n. f_globals_name g = Inr n \<and>
         (n = [] \<or> (\<exists>p \<in> ?PS. prefix p n))) \<and>
      f_globals_name f = Inl e \<and>
      within_depth max_stack_depth (int (length pre))"
  then have d: "drop (nat stack_start) stack = pre @ f # rest" by blast
  have len: "nat stack_start \<le> length stack"
    using d by (cases "nat stack_start \<le> length stack") auto
  have pre: "\<forall>g \<in> set pre. \<exists>n. f_globals_name g = Inr n \<and>
         (n = [] \<or> (\<exists>p \<in> ?PS. prefix p n))"
    using a by blast
  have f: "f_globals_name f = Inl e" using a by blast
  have wd: "within_depth max_stack_depth (0 + int (length pre))" using a by simp
  have "module_loop ?PS max_stack_depth 0 (pre @ f # rest) = Inl e"
    by (rule module_loop_fault [OF pre f wd])
  with len d show "resolve_caller_module env stack_start max_stack_depth excluded_prefixes
          fallback_to_current stack = Inl e"
    by (simp add: resolve_caller_module_def skip_frames_drop)
qed

theorem fault_handling_asymmetry_witness:
  "resolve_caller_filename demo_env 1 None NoneGiven True True True
     [mk_frame ''utils.caller_resolver'' ''/app/utils/caller_resolver.py'',
      mk_frame ''lib'' ''/usr/lib/python3/site-packages/lib.py'',
      faulty_frame,
      mk_frame ''app.main'' ''/app/main.py'']
   = Inr (Str ''run.py'')
   \<and> resolve_caller_module demo_env 1 None (Coll {''lib''}) True
     [mk_frame ''utils.caller_resolver'' ''/app/utils/caller_resolver.py'',
      mk_frame ''lib'' ''/usr/lib/python3/site-packages/lib.py'',
      faulty_frame,
      mk_frame ''app.main'' ''/app/main.py'']
   = Inl (Exception ''unreadable'')"
proof -
  let ?self = "mk_frame ''utils.caller_resolver'' ''/app/utils/caller_resolver.py''"
  let ?lib = "mk_frame ''lib'' ''/usr/lib/python3/site-packages/lib.py''"
  let ?main = "mk_frame ''app.main'' ''/app/main.py''"
  let ?stack = "[?self, ?lib, faulty_frame, ?main]"
  have s: "should_exclude (pattern_set_of demo_env NoneGiven)
      ''/usr/lib/python3/site-packages/lib.py''"
    by code_simp
  have h1: "drop (nat 1) ?stack = [?lib] @ faulty_frame # [?main] \<and>
      (\<forall>g \<in> set [?lib]. \<exists>q. co_filename g = Inr q \<and>
         should_exclude (pattern_set_of demo_env NoneGiven) q) \<and>
      co_filename faulty_frame = Inl (Exception ''unreadable'') \<and>
      within_depth None (int (length [?lib]))"
    using s by (simp add: mk_frame_def faulty_frame_def)
  have a: "resolve_caller_filename demo_env 1 None NoneGiven True True True ?stack
      = Inr (Str ''run.py'')"
    using fault_handling_asymmetry [where stack = ?stack and stack_start = 1
        and pre = "[?lib]" and f = faulty_frame and rest = "[?main]"
        and e = "Exception ''unreadable''" and env = demo_env and max_stack_depth = None
        and excluded_patterns = NoneGiven and return_basename = True
        and fallback_to_argv = True and fallback_to_current = True] h1
    by (simp add: demo_env_def render_def last_component_def)
  have h2: "drop (nat 1) ?stack = [?lib] @ faulty_frame # [?main] \<and>
      (\<forall>g \<in> set [?lib]. \<exists>n. f_globals_name g = Inr n \<and>
         (n = [] \<or> (\<exists>p \<in> prefix_set_of (Coll {''lib''}). prefix p n))) \<and>
      f_globals_name faulty_frame = Inl (Exception ''unreadable'') \<and>
      within_depth None (int (length [?lib]))"
    by (simp add: mk_frame_def faulty_frame_def prefix_set_of_def)
  have b: "resolve_caller_module demo_env 1 None (Coll {''lib''}) True ?stack
      = Inl (Exception ''unreadable'')"
    using fault_handling_asymmetry [where stack = ?stack and stack_start = 1
        and pre = "[?lib]" and f = faulty_frame and rest = "[?main]"
        and e = "Exception ''unreadable''" and env = demo_env and max_stack_depth = None
        and excluded_prefixes = "Coll {''lib''}" and fallback_to_current = True] h2
    by blast
  from a b show ?thesis by simp
qed

section \<open>Claims about the depth limit\<close>

text \<open>
  Claim C6. In both resolvers the \<^verbatim>\<open>stack_start\<close> skipped frames do not count towards
  \<^verbatim>\<open>max_stack_depth\<close>, and with the limit \<open>d\<close> at most \<open>d\<close> post-skip frames are
  inspected: the result is that of the unlimited walk over the stack cut after the
  skipped frames and \<open>d\<close> more. The limit is strict: when the first \<open>d\<close> post-skip
  frames are all rejected, the result is the fallback, whatever comes at position
  \<open>d + 1\<close>. The skipped frames are consumed without being read: resolving with
  \<^verbatim>\<open>stack_start\<close> frames in front is resolving the remaining chain with no skip.
\<close>

theorem depth_limit_strict:
  "resolve_caller_module env stack_start (Some d) excluded_prefixes fallback_to_current stack
     = resolve_caller_module env stack_start None excluded_prefixes fallback_to_current
         (take (nat stack_start + nat d) stack)
   \<and> resolve_caller_filename env stack_start (Some d) excluded_patterns return_basename
       fallback_to_argv fallback_to_current stack
     = resolve_caller_filename env stack_start None excluded_patterns return_basename
         fallback_to_argv fallback_to_current (take (nat stack_start + nat d) stack)
   \<and> (drop (nat stack_start) stack = pre @ rest \<and> int (length pre) = d \<and>
      (\<forall>g \<in> set pre. \<exists>n. f_globals_name g = Inr n \<and>
         (n = [] \<or> (\<exists>p \<in> prefix_set_of excluded_prefixes. prefix p n))) \<longrightarrow>
      resolve_caller_module env stack_start (Some d) excluded_prefixes fallback_to_current
          stack
        = Inr (if fallback_to_current then Str (dunder_name env) else MISSING))
   \<and> (drop (nat stack_start) stack = pre @ rest \<and> int (length pre) = d \<and>
      (\<forall>g \<in> set pre. \<exists>q. co_filename g = Inr q \<and>
         should_exclude (pattern_set_of env excluded_patterns) q) \<longrightarrow>
      resolve_caller_filename env stack_start (Some d) excluded_patterns return_basename
          fallback_to_argv fallback_to_current stack
        = Inr (fallbacks env return_basename fallback_to_argv fallback_to_current))
   \<and> (length skipped = nat stack_start \<longrightarrow>
      resolve_caller_module env stack_start max_stack_depth excluded_prefixes
          fallback_to_current (skipped @ remaining)
        = resolve_caller_module env 0 max_stack_depth excluded_prefixes
            fallback_to_current remaining)
   \<and> (length skipped = nat stack_start \<longrightarrow>
      resolve_caller_filename env stack_start max_stack_depth excluded_patterns
          return_basename fallback_to_argv fallback_to_current (skipped @ remaining)
        = resolve_caller_filename env 0 max_stack_depth excluded_patterns
            return_basename fallback_to_argv fallback_to_current remaining)"
proof (intro conjI impI)
  show "resolve_caller_module env stack_start (Some d) excluded_prefixes fallback_to_current
      stack
     = resolve_caller_module env stack_start None excluded_prefixes fallback_to_current
         (take (nat stack_start + nat d) stack)"
    by (simp add: resolve_caller_module_def skip_frames_drop drop_take module_loop_take)
next
  show "resolve_caller_filename env stack_start (Some d) excluded_patterns return_basename
       fallback_to_argv fallback_to_current stack
     = resolve_caller_filename env stack_start None excluded_patterns return_basename
         fallback_to_argv fallback_to_current (take (nat stack_start + nat d) stack)"
    by (simp add: resolve_caller_filename_cases skip_frames_drop drop_take file_loop_take)
next
  let ?PS = "prefix_set_of excluded_prefixes"
  assume a: "drop (nat stack_start) stack = pre @ rest \<and> int (length pre) = d \<and>
      (\<forall>g \<in> set pre. \<exists>n. f_globals_name g = Inr n \<and>
         (n = [] \<or> (\<exists>p \<in> ?PS. prefix p n)))"
  then have t: "take (nat d) (drop (nat stack_start) stack) = pre" by auto
  have pre: "\<forall>g \<in> set pre. \<exists>n. f_globals_name g = Inr n \<and>
         (n = [] \<or> (\<exists>p \<in> ?PS. prefix p n))"
    using a by blast
  have "module_loop ?PS None 0 pre = Inr None"
    by (rule module_loop_rejected [OF pre])
  with t have "module_loop ?PS (Some d) 0 (drop (nat stack_start) stack) = Inr None"
    by (simp add: module_loop_take)
  then show "resolve_caller_module env stack_start (Some d) excluded_prefixes
      fallback_to_current stack
        = Inr (if fallback_to_current then Str (dunder_name env) else MISSING)"
    by (simp add: resolve_caller_module_def skip_frames_drop)
next
  let ?PS = "pattern_set_of env excluded_patterns"
  assume a: "drop (nat stack_start) stack = pre @ rest \<and> int (length pre) = d \<and>
      (\<forall>g \<in> set pre. \<exists>q. co_filename g = Inr q \<and> should_exclude ?PS q)"
  then have t: "take (nat d) (drop (nat stack_start) stack) = pre" by auto
  have pre: "\<forall>g \<in> set pre. \<exists>q. co_filename g = Inr q \<and> should_exclude ?PS q"
    using a by blast
  have "file_loop env return_basename ?PS None 0 {} pre = Inr None"
    by (rule file_loop_rejected [OF pre])
  with t have "file_loop env return_basename ?PS (Some d) 0 {} (drop (nat stack_start) stack)
      = Inr None"
    by (simp add: file_loop_take)
  then show "resolve_caller_filename env stack_start (Some d) excluded_patterns
      return_basename fallback_to_argv fallback_to_current stack
        = Inr (fallbacks env return_basename fallback_to_argv fallback_to_current)"
    by (simp add: resolve_caller_filename_cases skip_frames_drop)
next
  assume "length skipped = nat stack_start"
  then show "resolve_caller_module env stack_start max_stack_depth excluded_prefixes
          fallback_to_current (skipped @ remaining)
        = resolve_caller_module env 0 max_stack_depth excluded_prefixes
            fallback_to_current remaining"
    by (simp add: resolve_caller_module_def skip_frames_drop)
next
  assume "length skipped = nat stack_start"
  then show "resolve_caller_filename env stack_start max_stack_depth excluded_patterns
          return_basename fallback_to_argv fallback_to_current (skipped @ remaining)
        = resolve_caller_filename env 0 max_stack_depth excluded_patterns
            return_basename fallback_to_argv fallback_to_current remaining"
    by (simp add: resolve_caller_filename_cases skip_frames_drop)
qed


theorem depth_limit_strict_witness:
  "resolve_caller_module demo_env 1 (Some 1) (Coll {''lib''}) True
     [mk_frame ''utils.caller_resolver'' ''/app/utils/caller_resolver.py'',
      mk_frame ''lib'' ''/usr/lib/python3/site-packages/lib.py'',
      mk_frame ''app.main'' ''/app/main.py'']
   = Inr (Str ''utils.caller_resolver'')
   \<and> resolve_caller_module demo_env 1 (Some 2) (Coll {''lib''}) True
     [mk_frame ''utils.caller_resolver'' ''/app/utils/caller_resolver.py'',
      mk_frame ''lib'' ''/usr/lib/python3/site-packages/lib.py'',
      mk_frame ''app.main'' ''/app/main.py'']
   = Inr (Str ''app.main'')
   \<and> resolve_caller_filename demo_env 1 (Some 1) NoneGiven True True True
     [mk_frame ''utils.caller_resolver'' ''/app/utils/caller_resolver.py'',
      mk_frame ''lib'' ''/usr/lib/python3/site-packages/lib.py'',
      mk_frame ''app.main'' ''/app/main.py'']
   = Inr (Str ''run.py'')
   \<and> resolve_caller_filename demo_env 1 (Some 2) NoneGiven True True True
     [mk_frame ''utils.caller_resolver'' ''/app/utils/caller_resolver.py'',
      mk_frame ''lib'' ''/usr/lib/python3/site-packages/lib.py'',
      mk_frame ''app.main'' ''/app/main.py'']
   = Inr (Str ''main.py'')
   \<and> resolve_caller_module demo_env 2 None NoneGiven True
     [faulty_frame, faulty_frame, mk_frame ''app.main'' ''/app/main.py'']
   = Inr (Str ''app.main'')
   \<and> resolve_caller_filename demo_env 2 None NoneGiven True True True
     [faulty_frame, faulty_frame, mk_frame ''app.main'' ''/app/main.py'']
   = Inr (Str ''main.py'')"
proof -
  let ?self = "mk_frame ''utils.caller_resolver'' ''/app/utils/caller_resolver.py''"
  let ?lib = "mk_frame ''lib'' ''/usr/lib/python3/site-packages/lib.py''"
  let ?main = "mk_frame ''app.main'' ''/app/main.py''"
  let ?stack = "[?self, ?lib, ?main]"
  note inst1 = depth_limit_strict [where stack = ?stack and stack_start = 1 and d = 1
      and pre = "[?lib]" and rest = "[?main]" and env = demo_env
      and excluded_prefixes = "Coll {''lib''}" and excluded_patterns = NoneGiven
      and return_basename = True and fallback_to_argv = True and fallback_to_current = True]
  note inst2 = depth_limit_strict [where stack = ?stack and stack_start = 1 and d = 2
      and env = demo_env
      and excluded_prefixes = "Coll {''lib''}" and excluded_patterns = NoneGiven
      and return_basename = True and fallback_to_argv = True and fallback_to_current = True]
  have s: "should_exclude (pattern_set_of demo_env NoneGiven)
      ''/usr/lib/python3/site-packages/lib.py''"
    by code_simp
  have hm: "drop (nat 1) ?stack = [?lib] @ [?main] \<and> int (length [?lib]) = 1 \<and>
      (\<forall>g \<in> set [?lib]. \<exists>n. f_globals_name g = Inr n \<and>
         (n = [] \<or> (\<exists>p \<in> prefix_set_of (Coll {''lib''}). prefix p n)))"
    by (simp add: mk_frame_def prefix_set_of_def)
  have hf: "drop (nat 1) ?stack = [?lib] @ [?main] \<and> int (length [?lib]) = 1 \<and>
      (\<forall>g \<in> set [?lib]. \<exists>q. co_filename g = Inr q \<and>
         should_exclude (pattern_set_of demo_env NoneGiven) q)"
    using s by (simp add: mk_frame_def)
  have "resolve_caller_module demo_env 1 (Some 1) (Coll {''lib''}) True ?stack
      = Inr (if True then Str (dunder_name demo_env) else MISSING)"
    using inst1 hm by blast
  then have a: "resolve_caller_module demo_env 1 (Some 1) (Coll {''lib''}) True ?stack
      = Inr (Str ''utils.caller_resolver'')"
    by (simp add: demo_env_def)
  have "resolve_caller_filename demo_env 1 (Some 1) NoneGiven True True True ?stack
      = Inr (fallbacks demo_env True True True)"
    using inst1 hf by blast
  then have c: "resolve_caller_filename demo_env 1 (Some 1) NoneGiven True True True ?stack
      = Inr (Str ''run.py'')"
    by (simp add: demo_env_def fallbacks_def render_def last_component_def)
  have b0: "resolve_caller_module demo_env 1 None (Coll {''lib''}) True
      (take (nat 1 + nat 2) ?stack) = Inr (Str ''app.main'')"
    by (simp add: resolve_caller_module_def prefix_set_of_def mk_frame_def)
  have b: "resolve_caller_module demo_env 1 (Some 2) (Coll {''lib''}) True ?stack
      = Inr (Str ''app.main'')"
    using inst2 b0 by (simp only:)
  have d0: "resolve_caller_filename demo_env 1 None NoneGiven True True True
      (take (nat 1 + nat 2) ?stack) = Inr (Str ''main.py'')"
    by code_simp
  have d: "resolve_caller_filename demo_env 1 (Some 2) NoneGiven True True True ?stack
      = Inr (Str ''main.py'')"
    using inst2 d0 by (simp only:)
  note inst3 = depth_limit_strict [where skipped = "[faulty_frame, faulty_frame]"
      and remaining = "[?main]" and stack_start = 2 and max_stack_depth = None
      and env = demo_env and excluded_prefixes = NoneGiven and excluded_patterns = NoneGiven
      and return_basename = True and fallback_to_argv = True and fallback_to_current = True]
  have hs: "length [faulty_frame, faulty_frame] = nat 2" by simp
  have e0: "resolve_caller_module demo_env 0 None NoneGiven True [?main]
      = Inr (Str ''app.main'')"
    by (simp add: resolve_caller_module_def prefix_set_of_def mk_frame_def)
  have "resolve_caller_module demo_env 2 None NoneGiven True
      ([faulty_frame, faulty_frame] @ [?main])
      = resolve_caller_module demo_env 0 None NoneGiven True [?main]"
    using inst3 hs by blast
  with e0 have e: "resolve_caller_module demo_env 2 None NoneGiven True
      [faulty_frame, faulty_frame, ?main] = Inr (Str ''app.main'')"
    by simp
  have g0: "resolve_caller_filename demo_env 0 None NoneGiven True True True [?main]
      = Inr (Str ''main.py'')"
    by code_simp
  have "resolve_caller_filename demo_env 2 None NoneGiven True True True
      ([faulty_frame, faulty_frame] @ [?main])
      = resolve_caller_filename demo_env 0 None NoneGiven True True True [?main]"
    using inst3 hs by blast
  with g0 have g: "resolve_caller_filename demo_env 2 None NoneGiven True True True
      [faulty_frame, faulty_frame, ?main] = Inr (Str ''main.py'')"
    by simp
  from a b c d e g show ?thesis by simp
qed

text \<open>
  Claim C9. In the file traversal a post-skip frame whose path is already in the seen set
  is passed over without any exclusion test (whatever the test would say), and the
  inspected-frame counter is still incremented. So repeated paths use up the depth
  budget: when a rejected frame is followed by \<open>k\<close> frames of the same path and then by
  an acceptable frame, the limit \<open>1 + k\<close> yields the fallback, while the limit
  \<open>2 + k\<close> and the unlimited walk return the acceptable frame.
\<close>

theorem seen_frames_consume_depth:
  "(co_filename f = Inr p \<and> p \<in> seen \<and> within_depth max_stack_depth inspected \<longrightarrow>
      file_loop env return_basename pattern_set max_stack_depth inspected seen (f # fs)
        = file_loop env return_basename pattern_set max_stack_depth (inspected + 1) seen fs)
   \<and> (drop (nat stack_start) stack = (g # dups) @ f # rest \<and>
      co_filename g = Inr q \<and>
      should_exclude (pattern_set_of env excluded_patterns) q \<and>
      (\<forall>h \<in> set dups. co_filename h = Inr q) \<and>
      co_filename f = Inr p \<and>
      \<not> should_exclude (pattern_set_of env excluded_patterns) p \<longrightarrow>
      resolve_caller_filename env stack_start (Some (1 + int (length dups)))
          excluded_patterns return_basename fallback_to_argv fallback_to_current stack
        = Inr (fallbacks env return_basename fallback_to_argv fallback_to_current)
      \<and> resolve_caller_filename env stack_start (Some (2 + int (length dups)))
          excluded_patterns return_basename fallback_to_argv fallback_to_current stack
        = Inr (Str (render env return_basename p))
      \<and> resolve_caller_filename env stack_start None
          excluded_patterns return_basename fallback_to_argv fallback_to_current stack
        = Inr (Str (render env return_basename p)))"
proof (intro conjI impI)
  assume "co_filename f = Inr p \<and> p \<in> seen \<and> within_depth max_stack_depth inspected"
  then show "file_loop env return_basename pattern_set max_stack_depth inspected seen (f # fs)
        = file_loop env return_basename pattern_set max_stack_depth (inspected + 1) seen fs"
    by simp
next
  let ?PS = "pattern_set_of env excluded_patterns"
  let ?pre = "g # dups"
  assume a: "drop (nat stack_start) stack = ?pre @ f # rest \<and>
      co_filename g = Inr q \<and> should_exclude ?PS q \<and>
      (\<forall>h \<in> set dups. co_filename h = Inr q) \<and>
      co_filename f = Inr p \<and> \<not> should_exclude ?PS p"
  then have d: "drop (nat stack_start) stack = ?pre @ f # rest" by blast
  have len: "nat stack_start \<le> length stack"
    using d by (cases "nat stack_start \<le> length stack") auto
  have pre: "\<forall>h \<in> set ?pre. \<exists>r. co_filename h = Inr r \<and> should_exclude ?PS r"
    using a by simp
  have f: "co_filename f = Inr p" and ok: "\<not> should_exclude ?PS p" using a by blast+
  have seen0: "\<forall>r \<in> {}. should_exclude ?PS r" by simp
  have t: "take (nat (1 + int (length dups))) (drop (nat stack_start) stack) = ?pre"
  proof -
    have "nat (1 + int (length dups)) = length ?pre" by simp
    with d show ?thesis by (simp only: append_eq_conv_conj take_append) simp
  qed
  have "file_loop env return_basename ?PS None 0 {} ?pre = Inr None"
    by (rule file_loop_rejected [OF pre])
  with t have "file_loop env return_basename ?PS (Some (1 + int (length dups))) 0 {}
      (drop (nat stack_start) stack) = Inr None"
    by (simp add: file_loop_take)
  then show "resolve_caller_filename env stack_start (Some (1 + int (length dups)))
          excluded_patterns return_basename fallback_to_argv fallback_to_current stack
        = Inr (fallbacks env return_basename fallback_to_argv fallback_to_current)"
    by (simp add: resolve_caller_filename_cases skip_frames_drop)
  have wd2: "within_depth (Some (2 + int (length dups))) (0 + int (length ?pre))" by simp
  have "file_loop env return_basename ?PS (Some (2 + int (length dups))) 0 {}
      (?pre @ f # rest) = Inr (Some (render env return_basename p))"
    by (rule file_loop_found [OF pre f ok seen0 wd2])
  with len d show "resolve_caller_filename env stack_start (Some (2 + int (length dups)))
          excluded_patterns return_basename fallback_to_argv fallback_to_current stack
        = Inr (Str (render env return_basename p))"
    by (simp add: resolve_caller_filename_cases skip_frames_drop)
  have wd: "within_depth None (0 + int (length ?pre))" by simp
  have "file_loop env return_basename ?PS None 0 {} (?pre @ f # rest)
      = Inr (Some (render env return_basename p))"
    by (rule file_loop_found [OF pre f ok seen0 wd])
  with len d show "resolve_caller_filename env stack_start None
          excluded_patterns return_basename fallback_to_argv fallback_to_current stack
        = Inr (Str (render env return_basename p))"
    by (simp add: resolve_caller_filename_cases skip_frames_drop)
qed

theorem seen_frames_consume_depth_witness:
  "file_loop demo_env True {} (Some 2) 0 {''/app/worker.py''}
       [mk_frame ''app.worker'' ''/app/worker.py'', mk_frame ''app.main'' ''/app/main.py'']
     = file_loop demo_env True {} (Some 2) 1 {''/app/worker.py''}
         [mk_frame ''app.main'' ''/app/main.py'']
   \<and> resolve_caller_filename demo_env 1 (Some 3) (Coll {''recurse.py''}) True False True
       [mk_frame ''utils.caller_resolver'' ''/app/utils/caller_resolver.py'',
        mk_frame ''app.recurse'' ''/app/recurse.py'',
        mk_frame ''app.recurse'' ''/app/recurse.py'',
        mk_frame ''app.recurse'' ''/app/recurse.py'',
        mk_frame ''app.main'' ''/app/main.py'']
     = Inr (Str ''caller_resolver.py'')
   \<and> resolve_caller_filename demo_env 1 (Some 4) (Coll {''recurse.py''}) True False True
       [mk_frame ''utils.caller_resolver'' ''/app/utils/caller_resolver.py'',
        mk_frame ''app.recurse'' ''/app/recurse.py'',
        mk_frame ''app.recurse'' ''/app/recurse.py'',
        mk_frame ''app.recurse'' ''/app/recurse.py'',
        mk_frame ''app.main'' ''/app/main.py'']
     = Inr (Str ''main.py'')
   \<and> resolve_caller_filename demo_env 1 None (Coll {''recurse.py''}) True False True
       [mk_frame ''utils.caller_resolver'' ''/app/utils/caller_resolver.py'',
        mk_frame ''app.recurse'' ''/app/recurse.py'',
        mk_frame ''app.recurse'' ''/app/recurse.py'',
        mk_frame ''app.recurse'' ''/app/recurse.py'',
        mk_frame ''app.main'' ''/app/main.py'']
     = Inr (Str ''main.py'')"
proof -
  let ?self = "mk_frame ''utils.caller_resolver'' ''/app/utils/caller_resolver.py''"
  let ?rec = "mk_frame ''app.recurse'' ''/app/recurse.py''"
  let ?worker = "mk_frame ''app.worker'' ''/app/worker.py''"
  let ?main = "mk_frame ''app.main'' ''/app/main.py''"
  let ?stack = "[?self, ?rec, ?rec, ?rec, ?main]"
  let ?ex = "Coll {''recurse.py''} :: string set excluded"
  have h1: "co_filename ?worker = Inr ''/app/worker.py'' \<and>
      ''/app/worker.py'' \<in> {''/app/worker.py''} \<and> within_depth (Some 2) 0"
    by (simp add: mk_frame_def)
  have first: "file_loop demo_env True {} (Some 2) 0 {''/app/worker.py''} [?worker, ?main]
     = file_loop demo_env True {} (Some 2) (0 + 1) {''/app/worker.py''} [?main]"
    using seen_frames_consume_depth [where f = ?worker and p = "''/app/worker.py''"
        and seen = "{''/app/worker.py''}" and max_stack_depth = "Some 2" and inspected = 0
        and env = demo_env and return_basename = True and pattern_set = "{}"
        and fs = "[?main]"] h1
    by blast
  have s1: "should_exclude (pattern_set_of demo_env ?ex) ''/app/recurse.py''"
    by code_simp
  have s2: "\<not> should_exclude (pattern_set_of demo_env ?ex) ''/app/main.py''"
    by code_simp
  have h2: "drop (nat 1) ?stack = (?rec # [?rec, ?rec]) @ ?main # [] \<and>
      co_filename ?rec = Inr ''/app/recurse.py'' \<and>
      should_exclude (pattern_set_of demo_env ?ex) ''/app/recurse.py'' \<and>
      (\<forall>h \<in> set [?rec, ?rec]. co_filename h = Inr ''/app/recurse.py'') \<and>
      co_filename ?main = Inr ''/app/main.py'' \<and>
      \<not> should_exclude (pattern_set_of demo_env ?ex) ''/app/main.py''"
    using s1 s2 by (simp add: mk_frame_def)
  have second: "resolve_caller_filename demo_env 1 (Some (1 + int (length [?rec, ?rec])))
          ?ex True False True ?stack
        = Inr (fallbacks demo_env True False True)
      \<and> resolve_caller_filename demo_env 1 (Some (2 + int (length [?rec, ?rec])))
          ?ex True False True ?stack
        = Inr (Str (render demo_env True ''/app/main.py''))
      \<and> resolve_caller_filename demo_env 1 None ?ex True False True ?stack
        = Inr (Str (render demo_env True ''/app/main.py''))"
    using seen_frames_consume_depth [where stack = ?stack and stack_start = 1
        and g = ?rec and dups = "[?rec, ?rec]" and f = ?main and rest = "[]"
        and q = "''/app/recurse.py''" and p = "''/app/main.py''" and env = demo_env
        and excluded_patterns = ?ex and return_basename = True
        and fallback_to_argv = False and fallback_to_current = True] h2
    by blast
  have n1: "1 + int (length [?rec, ?rec]) = 3" and n2: "2 + int (length [?rec, ?rec]) = 4"
    by simp_all
  have r1: "fallbacks demo_env True False True = Str ''caller_resolver.py''"
    by (simp add: fallbacks_def render_def demo_env_def last_component_def)
  have r2: "render demo_env True ''/app/main.py'' = ''main.py''"
    by (simp add: render_def demo_env_def last_component_def)
  from first second show ?thesis
    unfolding n1 n2 r1 r2 by simp
qed

section \<open>Claims about the legacy resolver and the filter\<close>

text \<open>
  Claim C8. For every frame sequence and the same \<^verbatim>\<open>stack_start\<close>,
  \<^verbatim>\<open>max_stack_depth\<close>, \<^verbatim>\<open>excluded_prefixes\<close> and \<^verbatim>\<open>fallback_to_current\<close>, the legacy
  resolver \<^const>\<open>aaa\<close> and \<^const>\<open>resolve_caller_module\<close> agree. With the current-context
  fallback disabled their results are equal: the same accepted name, the same propagated
  exception, or \<^verbatim>\<open>MISSING\<close> in the same cases. With it enabled each returns what it
  returns with the fallback disabled, except that \<^verbatim>\<open>MISSING\<close> is replaced by its own
  module's \<^verbatim>\<open>__name__\<close>.
\<close>

theorem legacy_module_resolver_equivalent:
  "aaa env_bak stack_start max_stack_depth excluded_prefixes False stack
     = resolve_caller_module env stack_start max_stack_depth (as_set excluded_prefixes)
         False stack
   \<and> aaa env_bak stack_start max_stack_depth excluded_prefixes True stack
     = (if aaa env_bak stack_start max_stack_depth excluded_prefixes False stack
            = Inr MISSING
        then Inr (Str (dunder_name env_bak))
        else aaa env_bak stack_start max_stack_depth excluded_prefixes False stack)
   \<and> resolve_caller_module env stack_start max_stack_depth (as_set excluded_prefixes)
       True stack
     = (if resolve_caller_module env stack_start max_stack_depth
              (as_set excluded_prefixes) False stack = Inr MISSING
        then Inr (Str (dunder_name env))
        else resolve_caller_module env stack_start max_stack_depth
               (as_set excluded_prefixes) False stack)"
proof -
  have ps: "prefix_set_of (as_set excluded_prefixes) = set (prefix_tuple_of excluded_prefixes)"
    by (cases excluded_prefixes) (simp_all add: prefix_set_of_def as_set_def prefix_tuple_of_def)
  have a: "aaa env_bak stack_start max_stack_depth excluded_prefixes False stack
     = resolve_caller_module env stack_start max_stack_depth (as_set excluded_prefixes)
         False stack"
    by (simp add: aaa_def resolve_caller_module_def ps aaa_loop_eq split: option.splits)
  have b: "aaa env_bak stack_start max_stack_depth excluded_prefixes True stack
     = (if aaa env_bak stack_start max_stack_depth excluded_prefixes False stack
            = Inr MISSING
        then Inr (Str (dunder_name env_bak))
        else aaa env_bak stack_start max_stack_depth excluded_prefixes False stack)"
    by (simp add: aaa_def split: option.splits sum.splits)
  have c: "resolve_caller_module env stack_start max_stack_depth (as_set excluded_prefixes)
       True stack
     = (if resolve_caller_module env stack_start max_stack_depth
              (as_set excluded_prefixes) False stack = Inr MISSING
        then Inr (Str (dunder_name env))
        else resolve_caller_module env stack_start max_stack_depth
               (as_set excluded_prefixes) False stack)"
    by (simp add: resolve_caller_module_def split: option.splits sum.splits)
  from a b c show ?thesis by (simp only: simp_thms)
qed

theorem legacy_module_resolver_equivalent_witness:
  "aaa (demo_env\<lparr>dunder_name := ''utils.caller_resolver_bak''\<rparr>) 1 (Some 2)
       (Coll [''pkg.'', ''pkg.'']) False
       [mk_frame ''utils.caller_resolver'' ''/app/utils/caller_resolver.py'',
        mk_frame ''pkg.internal'' ''/app/pkg/internal.py'',
        mk_frame ''app.main'' ''/app/main.py'']
     = Inr (Str ''app.main'')
   \<and> resolve_caller_module demo_env 1 (Some 2) (Coll {''pkg.''}) False
       [mk_frame ''utils.caller_resolver'' ''/app/utils/caller_resolver.py'',
        mk_frame ''pkg.internal'' ''/app/pkg/internal.py'',
        mk_frame ''app.main'' ''/app/main.py'']
     = Inr (Str ''app.main'')
   \<and> aaa (demo_env\<lparr>dunder_name := ''utils.caller_resolver_bak''\<rparr>) 1 (Some 1)
       (Coll [''pkg.'', ''pkg.'']) True
       [mk_frame ''utils.caller_resolver'' ''/app/utils/caller_resolver.py'',
        mk_frame ''pkg.internal'' ''/app/pkg/internal.py'',
        mk_frame ''app.main'' ''/app/main.py'']
     = Inr (Str ''utils.caller_resolver_bak'')
   \<and> resolve_caller_module demo_env 1 (Some 1) (Coll {''pkg.''}) True
       [mk_frame ''utils.caller_resolver'' ''/app/utils/caller_resolver.py'',
        mk_frame ''pkg.internal'' ''/app/pkg/internal.py'',
        mk_frame ''app.main'' ''/app/main.py'']
     = Inr (Str ''utils.caller_resolver'')"
proof -
  let ?bak = "demo_env\<lparr>dunder_name := ''utils.caller_resolver_bak''\<rparr>"
  let ?stack = "[mk_frame ''utils.caller_resolver'' ''/app/utils/caller_resolver.py'',
        mk_frame ''pkg.internal'' ''/app/pkg/internal.py'',
        mk_frame ''app.main'' ''/app/main.py'']"
  let ?ex = "Coll [''pkg.'', ''pkg.''] :: string list excluded"
  have s: "as_set ?ex = Coll {''pkg.''}" by (simp add: as_set_def)
  note two = legacy_module_resolver_equivalent [where env_bak = ?bak and env = demo_env
      and stack_start = 1 and max_stack_depth = "Some 2" and excluded_prefixes = ?ex
      and stack = ?stack]
  note one = legacy_module_resolver_equivalent [where env_bak = ?bak and env = demo_env
      and stack_start = 1 and max_stack_depth = "Some 1" and excluded_prefixes = ?ex
      and stack = ?stack]
  have p2: "resolve_caller_module demo_env 1 (Some 2) (Coll {''pkg.''}) False ?stack
      = Inr (Str ''app.main'')"
    by (simp add: resolve_caller_module_def prefix_set_of_def mk_frame_def)
  have l2: "aaa ?bak 1 (Some 2) ?ex False ?stack = Inr (Str ''app.main'')"
    using two p2 unfolding s by (simp only:)
  have p1: "resolve_caller_module demo_env 1 (Some 1) (Coll {''pkg.''}) False ?stack
      = Inr MISSING"
    by (simp add: resolve_caller_module_def prefix_set_of_def mk_frame_def)
  have l1: "aaa ?bak 1 (Some 1) ?ex False ?stack = Inr MISSING"
    using one p1 unfolding s by (simp only:)
  have l1t: "aaa ?bak 1 (Some 1) ?ex True ?stack = Inr (Str (dunder_name ?bak))"
    using one l1 by (simp only: if_True simp_thms)
  have p1t: "resolve_caller_module demo_env 1 (Some 1) (Coll {''pkg.''}) True ?stack
      = Inr (Str (dunder_name demo_env))"
    using one p1 unfolding s by (simp only: if_True simp_thms)
  have n: "dunder_name ?bak = ''utils.caller_resolver_bak''"
      "dunder_name demo_env = ''utils.caller_resolver''"
    by (simp_all add: demo_env_def)
  from l2 p2 l1t p1t show ?thesis unfolding n by (simp only: simp_thms)
qed

text \<open>
  Claim C7. \<^verbatim>\<open>CallerInfoFilter.filter\<close> raises nothing and returns \<^verbatim>\<open>True\<close> for
  every record. It calls \<^const>\<open>resolve_caller_filename\<close> with the skip count
  \<open>8 + stack_offset\<close>, the filter's exclusion set and its argv preference, stores
  the result (a string, or \<^verbatim>\<open>MISSING\<close> unchanged) in the record under
  \<^verbatim>\<open>attribute_name\<close>, and leaves every other attribute of the record as it was.
\<close>

theorem caller_info_filter_allows_and_writes:
  "(\<exists>caller.
      resolve_caller_filename env (8 + self_stack_offset self) None
          (Coll (self_exclude_patterns self)) True (self_fallback_to_argv self) True stack
        = Inr caller
      \<and> filter_CallerInfoFilter env self record stack
        = Inr (True, record(self_attribute_name self \<mapsto> Inl caller)))
   \<and> (\<forall>allow record'.
        filter_CallerInfoFilter env self record stack = Inr (allow, record') \<longrightarrow>
        allow
        \<and> (\<forall>k. k \<noteq> self_attribute_name self \<longrightarrow> record' k = record k))
   \<and> (\<forall>e. filter_CallerInfoFilter env self record stack \<noteq> Inl e)"
proof -
  have "\<exists>caller. resolve_caller_filename env (8 + self_stack_offset self) None
          (Coll (self_exclude_patterns self)) True (self_fallback_to_argv self) True stack
        = Inr caller"
    by (simp add: resolve_caller_filename_cases split: option.splits sum.splits)
  then obtain caller where c:
    "resolve_caller_filename env (8 + self_stack_offset self) None
          (Coll (self_exclude_patterns self)) True (self_fallback_to_argv self) True stack
        = Inr caller"
    by blast
  then have f: "filter_CallerInfoFilter env self record stack
        = Inr (True, record(self_attribute_name self \<mapsto> Inl caller))"
    by (simp add: filter_CallerInfoFilter_def)
  from c f show ?thesis by auto
qed


theorem caller_info_filter_allows_and_writes_witness:
  "filter_CallerInfoFilter demo_env
     \<lparr>self_attribute_name = ''caller'',
      self_exclude_patterns = {''logging/__init__.py'', ''site-packages''},
      self_stack_offset = 0,
      self_fallback_to_argv = True\<rparr>
     [''msg'' \<mapsto> Inr ''started'']
     ([mk_frame ''utils.caller_resolver'' ''/app/utils/caller_resolver.py'',
       mk_frame ''utils.logkit.filters'' ''/app/utils/logkit/filters.py'']
      @ replicate 6 (mk_frame ''logging'' ''/usr/lib/python3/logging/__init__.py'')
      @ [mk_frame ''app.main'' ''/app/main.py''])
   = Inr (True, [''msg'' \<mapsto> Inr ''started'', ''caller'' \<mapsto> Inl (Str ''main.py'')])
   \<and> [''msg'' \<mapsto> Inr ''started'', ''caller'' \<mapsto> Inl (Str ''main.py'')] ''msg''
     = Some (Inr ''started'' :: result + string)"
proof -
  let ?self = "\<lparr>self_attribute_name = ''caller'',
      self_exclude_patterns = {''logging/__init__.py'', ''site-packages''},
      self_stack_offset = 0,
      self_fallback_to_argv = True\<rparr>"
  let ?rcd = "[''msg'' \<mapsto> Inr ''started''] :: string log_record"
  let ?stack = "[mk_frame ''utils.caller_resolver'' ''/app/utils/caller_resolver.py'',
       mk_frame ''utils.logkit.filters'' ''/app/utils/logkit/filters.py'']
      @ replicate 6 (mk_frame ''logging'' ''/usr/lib/python3/logging/__init__.py'')
      @ [mk_frame ''app.main'' ''/app/main.py'']"
  have r: "resolve_caller_filename demo_env (8 + 0) None
      (Coll {''logging/__init__.py'', ''site-packages''}) True True True ?stack
      = Inr (Str ''main.py'')"
    by code_simp
  from caller_info_filter_allows_and_writes [of demo_env ?self ?stack ?rcd]
  obtain caller where c:
    "resolve_caller_filename demo_env (8 + self_stack_offset ?self) None
          (Coll (self_exclude_patterns ?self)) True (self_fallback_to_argv ?self) True ?stack
        = Inr caller"
    and f: "filter_CallerInfoFilter demo_env ?self ?rcd ?stack
        = Inr (True, ?rcd(self_attribute_name ?self \<mapsto> Inl caller))"
    by blast
  from c r have "caller = Str ''main.py''" by simp
  with f have res: "filter_CallerInfoFilter demo_env ?self ?rcd ?stack
      = Inr (True, ?rcd(''caller'' \<mapsto> Inl (Str ''main.py'')))"
    by simp
  from caller_info_filter_allows_and_writes [of demo_env ?self ?stack ?rcd] res
  have "True \<and> (\<forall>k. k \<noteq> self_attribute_name ?self \<longrightarrow>
      (?rcd(''caller'' \<mapsto> Inl (Str ''main.py''))) k = ?rcd k)"
    by blast
  then have "(?rcd(''caller'' \<mapsto> Inl (Str ''main.py''))) ''msg'' = Some (Inr ''started'')"
    by simp
  with res show ?thesis by simp
qed

section \<open>Claims about the MISSING marker\<close>

text \<open>
  Claim C10, refuted as stated. With \<^verbatim>\<open>fallback_to_current\<close> true,
  \<^const>\<open>resolve_caller_module\<close> does not return a string on every input: when the walk
  reaches a frame whose identifier read raises, the exception leaves the function.
\<close>

theorem fallback_to_current_counterexample:
  "resolve_caller_module demo_env 1 None NoneGiven True
     [mk_frame ''utils.caller_resolver'' ''/app/utils/caller_resolver.py'',
      faulty_frame,
      mk_frame ''app.main'' ''/app/main.py'']
   = Inl (Exception ''unreadable'')"
  by (simp add: resolve_caller_module_def prefix_set_of_def mk_frame_def faulty_frame_def)

text \<open>
  Claim C10, amended. With \<^verbatim>\<open>fallback_to_current\<close> true,
  \<^const>\<open>resolve_caller_filename\<close> returns a string on every input, and
  \<^const>\<open>resolve_caller_module\<close> returns a string unless a frame's identifier read
  raises, in which case that exception propagates; neither returns \<^verbatim>\<open>MISSING\<close>, and
  the filter, which leaves \<^verbatim>\<open>fallback_to_current\<close> at its default, always writes a
  string. \<^verbatim>\<open>MISSING\<close> is returned only when \<^verbatim>\<open>fallback_to_current\<close> is false and,
  for the file resolver, \<^verbatim>\<open>fallback_to_argv\<close> is false or \<^verbatim>\<open>sys.argv\<close> is empty.
\<close>

theorem missing_only_without_fallbacks:
  "(\<exists>s. resolve_caller_filename env stack_start max_stack_depth excluded_patterns
          return_basename fallback_to_argv True stack = Inr (Str s))
   \<and> ((\<exists>s. resolve_caller_module env stack_start max_stack_depth excluded_prefixes
             True stack = Inr (Str s))
      \<or> (\<exists>e. resolve_caller_module env stack_start max_stack_depth excluded_prefixes
             True stack = Inl e
           \<and> (\<exists>g \<in> set stack. f_globals_name g = Inl e)))
   \<and> (resolve_caller_module env stack_start max_stack_depth excluded_prefixes
          fallback_to_current stack = Inr MISSING
        \<longrightarrow> \<not> fallback_to_current)
   \<and> (resolve_caller_filename env stack_start max_stack_depth excluded_patterns
          return_basename fallback_to_argv fallback_to_current stack = Inr MISSING
        \<longrightarrow> \<not> fallback_to_current \<and> (\<not> fallback_to_argv \<or> argv env = []))
   \<and> (\<exists>s. filter_CallerInfoFilter env self record stack
          = Inr (True, record(self_attribute_name self \<mapsto> Inl (Str s))))"
proof (intro conjI)
  show file_str: "\<exists>s. resolve_caller_filename env stack_start max_stack_depth
      excluded_patterns return_basename fallback_to_argv True stack = Inr (Str s)"
    for stack_start max_stack_depth excluded_patterns return_basename fallback_to_argv
    by (simp add: resolve_caller_filename_cases fallbacks_def
        split: option.splits sum.splits)
  show "(\<exists>s. resolve_caller_module env stack_start max_stack_depth excluded_prefixes
             True stack = Inr (Str s))
      \<or> (\<exists>e. resolve_caller_module env stack_start max_stack_depth excluded_prefixes
             True stack = Inl e
           \<and> (\<exists>g \<in> set stack. f_globals_name g = Inl e))"
  proof (cases "skip_frames (nat stack_start) stack")
    case None
    then show ?thesis by (simp add: resolve_caller_module_def)
  next
    case (Some fs)
    then have fs: "fs = drop (nat stack_start) stack"
      by (simp add: skip_frames_drop split: if_splits)
    show ?thesis
    proof (cases "module_loop (prefix_set_of excluded_prefixes) max_stack_depth 0 fs")
      case (Inl e)
      from module_loop_fault_origin [OF Inl] obtain g
        where "g \<in> set fs" "f_globals_name g = Inl e" by blast
      then have "\<exists>g \<in> set stack. f_globals_name g = Inl e"
        using fs set_drop_subset [of "nat stack_start" stack] by blast
      with Some Inl show ?thesis by (simp add: resolve_caller_module_def)
    next
      case (Inr r)
      with Some show ?thesis
        by (cases r) (simp_all add: resolve_caller_module_def)
    qed
  qed
  show "resolve_caller_module env stack_start max_stack_depth excluded_prefixes
          fallback_to_current stack = Inr MISSING
        \<longrightarrow> \<not> fallback_to_current"
    by (simp add: resolve_caller_module_def Let_def split: option.splits sum.splits)
  show "resolve_caller_filename env stack_start max_stack_depth excluded_patterns
          return_basename fallback_to_argv fallback_to_current stack = Inr MISSING
        \<longrightarrow> \<not> fallback_to_current \<and> (\<not> fallback_to_argv \<or> argv env = [])"
    by (simp add: resolve_caller_filename_cases fallbacks_def
        split: option.splits sum.splits if_splits)
  from file_str [of "8 + self_stack_offset self" None "Coll (self_exclude_patterns self)"
      True "self_fallback_to_argv self"]
  show "\<exists>s. filter_CallerInfoFilter env self record stack
          = Inr (True, record(self_attribute_name self \<mapsto> Inl (Str s)))"
    by (auto simp: filter_CallerInfoFilter_def)
qed


theorem missing_only_without_fallbacks_witness:
  "resolve_caller_module demo_env 3 None NoneGiven False
     [mk_frame ''utils.caller_resolver'' ''/app/utils/caller_resolver.py'']
   = Inr MISSING
   \<and> resolve_caller_filename (demo_env\<lparr>argv := []\<rparr>) 3 None NoneGiven True True False
     [mk_frame ''utils.caller_resolver'' ''/app/utils/caller_resolver.py'']
   = Inr MISSING
   \<and> argv (demo_env\<lparr>argv := []\<rparr>) = []
   \<and> resolve_caller_filename (demo_env\<lparr>argv := []\<rparr>) 3 None NoneGiven True True True
     [mk_frame ''utils.caller_resolver'' ''/app/utils/caller_resolver.py'']
   \<noteq> Inr MISSING"
proof -
  let ?env = "demo_env\<lparr>argv := []\<rparr>"
  let ?stack = "[mk_frame ''utils.caller_resolver'' ''/app/utils/caller_resolver.py'']"
  note inst = missing_only_without_fallbacks [where env = ?env and stack_start = 3
      and max_stack_depth = None and excluded_patterns = NoneGiven
      and return_basename = True and fallback_to_argv = True and fallback_to_current = False
      and stack = ?stack]
  have m: "resolve_caller_module demo_env 3 None NoneGiven False ?stack = Inr MISSING"
    by (simp add: resolve_caller_module_def skip_frames_drop)
  have m': "resolve_caller_module ?env 3 None NoneGiven False ?stack = Inr MISSING"
    by (simp add: resolve_caller_module_def skip_frames_drop)
  from inst [where excluded_prefixes = NoneGiven] m' have nf: "\<not> False" by blast
  have f: "resolve_caller_filename ?env 3 None NoneGiven True True False ?stack = Inr MISSING"
    by (simp add: resolve_caller_filename_cases skip_frames_drop fallbacks_def demo_env_def)
  from inst f have "\<not> False \<and> (\<not> True \<or> argv ?env = [])" by blast
  then have a: "argv ?env = []" by simp
  from inst obtain s
    where "resolve_caller_filename ?env 3 None NoneGiven True True True ?stack = Inr (Str s)"
    by blast
  then have t: "resolve_caller_filename ?env 3 None NoneGiven True True True ?stack
      \<noteq> Inr MISSING"
    by simp
  from m f a t show ?thesis by (simp only: simp_thms)
qed

end
